theory Spec2Isabelle
  imports Complex_Main "HOL-Library.Sublist"
begin

section \<open>JavaScript values\<close>

text \<open>
  A JavaScript number is an IEEE double. Every finite double is a rational, so the finite
  numbers are modelled by their exact value; negative zero is identified with zero.
\<close>

datatype jsnum = Num rat | NaN | PosInfinity | NegInfinity

text \<open>
  The values an \<^verbatim>\<open>any\<close> can hold. A non-primitive (array or object) is kept
  abstract: \<open>JObject s\<close> is one whose string conversion is \<open>s\<close>.
\<close>

datatype jsval = JUndefined | JNull | JBool bool | JNum jsnum | JStr string | JObject string

fun isFinite :: "jsnum \<Rightarrow> bool" where
  "isFinite (Num q) = True"
| "isFinite NaN = False"
| "isFinite PosInfinity = False"
| "isFinite NegInfinity = False"

text \<open>\<^verbatim>\<open>Number.isFinite\<close>: no coercion, false for everything that is not a number.\<close>

fun Number_isFinite :: "jsval \<Rightarrow> bool" where
  "Number_isFinite (JNum n) = isFinite n"
| "Number_isFinite v = False"

fun jsneg :: "jsnum \<Rightarrow> jsnum" where
  "jsneg (Num q) = Num (- q)"
| "jsneg NaN = NaN"
| "jsneg PosInfinity = NegInfinity"
| "jsneg NegInfinity = PosInfinity"

text \<open>\<^verbatim>\<open>Math.round\<close>: the nearest integer, a tie going up.\<close>

fun Math_round :: "jsnum \<Rightarrow> jsnum" where
  "Math_round (Num q) = Num (of_int \<lfloor>q + 1 / 2\<rfloor>)"
| "Math_round n = n"

fun jsLess0 :: "jsnum \<Rightarrow> bool" where
  "jsLess0 (Num q) = (q < 0)"
| "jsLess0 NegInfinity = True"
| "jsLess0 n = False"

section \<open>Strings\<close>

definition LF :: char where
  "LF = CHR 0x0A"

definition CR :: char where
  "CR = CHR 0x0D"

text \<open>
  A string is a list of 8-bit characters: the texts the program handles are taken to
  hold code units below 256 only. Among these, the white space and line terminators of
  JavaScript are the following.
\<close>

definition isWhiteSpace :: "char \<Rightarrow> bool" where
  "isWhiteSpace c = (c \<in> set [CHR 0x09, CHR 0x0A, CHR 0x0B, CHR 0x0C, CHR 0x0D, CHR 0x20, CHR 0xA0])"

definition trim :: "string \<Rightarrow> string" where
  "trim s = rev (dropWhile isWhiteSpace (rev (dropWhile isWhiteSpace s)))"

text \<open>\<^verbatim>\<open>s.split(sep)\<close> for a one-character separator.\<close>

fun splitOn :: "char \<Rightarrow> string \<Rightarrow> string list" where
  "splitOn sep [] = [[]]"
| "splitOn sep (c # cs) =
     (if c = sep then [] # splitOn sep cs
      else (case splitOn sep cs of [] \<Rightarrow> [[c]] | x # xs \<Rightarrow> (c # x) # xs))"

text \<open>\<^verbatim>\<open>text.split(/\r?\n/)\<close>: a line feed, or a carriage return and a line feed, ends a line.\<close>

fun splitLines :: "string \<Rightarrow> string list" where
  "splitLines [] = [[]]"
| "splitLines [c] = (if c = LF then [[], []] else [[c]])"
| "splitLines (c # d # cs) =
     (if c = LF then [] # splitLines (d # cs)
      else if c = CR \<and> d = LF then [] # splitLines cs
      else (case splitLines (d # cs) of [] \<Rightarrow> [[c]] | x # xs \<Rightarrow> (c # x) # xs))"

text \<open>\<^verbatim>\<open>xs.join(sep)\<close>.\<close>

fun join :: "string \<Rightarrow> string list \<Rightarrow> string" where
  "join sep [] = []"
| "join sep [x] = x"
| "join sep (x # y # ys) = x @ sep @ join sep (y # ys)"

text \<open>\<^verbatim>\<open>s.includes(sub)\<close>.\<close>

fun str_includes :: "string \<Rightarrow> string \<Rightarrow> bool" where
  "str_includes [] sub = (sub = [])"
| "str_includes (c # cs) sub = (prefix sub (c # cs) \<or> str_includes cs sub)"

definition upperChars :: string where
  "upperChars = ''ABCDEFGHIJKLMNOPQRSTUVWXYZ'' @
     [CHR 0xC0, CHR 0xC1, CHR 0xC2, CHR 0xC3, CHR 0xC4, CHR 0xC5, CHR 0xC6, CHR 0xC7,
      CHR 0xC8, CHR 0xC9, CHR 0xCA, CHR 0xCB, CHR 0xCC, CHR 0xCD, CHR 0xCE, CHR 0xCF,
      CHR 0xD0, CHR 0xD1, CHR 0xD2, CHR 0xD3, CHR 0xD4, CHR 0xD5, CHR 0xD6,
      CHR 0xD8, CHR 0xD9, CHR 0xDA, CHR 0xDB, CHR 0xDC, CHR 0xDD, CHR 0xDE]"

definition lowerChars :: string where
  "lowerChars = ''abcdefghijklmnopqrstuvwxyz'' @
     [CHR 0xE0, CHR 0xE1, CHR 0xE2, CHR 0xE3, CHR 0xE4, CHR 0xE5, CHR 0xE6, CHR 0xE7,
      CHR 0xE8, CHR 0xE9, CHR 0xEA, CHR 0xEB, CHR 0xEC, CHR 0xED, CHR 0xEE, CHR 0xEF,
      CHR 0xF0, CHR 0xF1, CHR 0xF2, CHR 0xF3, CHR 0xF4, CHR 0xF5, CHR 0xF6,
      CHR 0xF8, CHR 0xF9, CHR 0xFA, CHR 0xFB, CHR 0xFC, CHR 0xFD, CHR 0xFE]"

definition toLowerChar :: "char \<Rightarrow> char" where
  "toLowerChar c = (case map_of (zip upperChars lowerChars) c of None \<Rightarrow> c | Some d \<Rightarrow> d)"

definition toLowerCase :: "string \<Rightarrow> string" where
  "toLowerCase s = map toLowerChar s"

text \<open>A natural number in a template string: its decimal digits.\<close>

definition digitChar :: "nat \<Rightarrow> char" where
  "digitChar n = ''0123456789'' ! n"

fun showNat :: "nat \<Rightarrow> string" where
  "showNat n = (if n < 10 then [digitChar n] else showNat (n div 10) @ [digitChar (n mod 10)])"

declare showNat.simps [simp del]

section \<open>Regular expressions\<close>

text \<open>
  The patterns of the source are anchored at both ends, so \<^verbatim>\<open>re.test(s)\<close> asks
  whether the whole string is in the pattern's language. The matcher works by
  derivatives.
\<close>

datatype regex =
    Empty
  | Eps
  | Lit char
  | Digit
  | Alt regex regex
  | Seq regex regex
  | Star regex

definition Opt :: "regex \<Rightarrow> regex" where
  "Opt r = Alt Eps r"

definition Plus :: "regex \<Rightarrow> regex" where
  "Plus r = Seq r (Star r)"

definition isDigit :: "char \<Rightarrow> bool" where
  "isDigit c = (c \<in> set ''0123456789'')"

definition conc :: "string set \<Rightarrow> string set \<Rightarrow> string set" where
  "conc A B = {xs @ ys |xs ys. xs \<in> A \<and> ys \<in> B}"

inductive_set star :: "string set \<Rightarrow> string set" for A :: "string set" where
  star_nil: "[] \<in> star A"
| star_app: "xs \<in> A \<Longrightarrow> ys \<in> star A \<Longrightarrow> xs @ ys \<in> star A"

primrec lang :: "regex \<Rightarrow> string set" where
  "lang Empty = {}"
| "lang Eps = {[]}"
| "lang (Lit c) = {[c]}"
| "lang Digit = {[c] |c. isDigit c}"
| "lang (Alt r s) = lang r \<union> lang s"
| "lang (Seq r s) = conc (lang r) (lang s)"
| "lang (Star r) = star (lang r)"

primrec nullable :: "regex \<Rightarrow> bool" where
  "nullable Empty = False"
| "nullable Eps = True"
| "nullable (Lit c) = False"
| "nullable Digit = False"
| "nullable (Alt r s) = (nullable r \<or> nullable s)"
| "nullable (Seq r s) = (nullable r \<and> nullable s)"
| "nullable (Star r) = True"

primrec deriv :: "char \<Rightarrow> regex \<Rightarrow> regex" where
  "deriv a Empty = Empty"
| "deriv a Eps = Empty"
| "deriv a (Lit c) = (if a = c then Eps else Empty)"
| "deriv a Digit = (if isDigit a then Eps else Empty)"
| "deriv a (Alt r s) = Alt (deriv a r) (deriv a s)"
| "deriv a (Seq r s) =
     (if nullable r then Alt (Seq (deriv a r) s) (deriv a s) else Seq (deriv a r) s)"
| "deriv a (Star r) = Seq (deriv a r) (Star r)"

primrec test :: "regex \<Rightarrow> string \<Rightarrow> bool" where
  "test r [] = nullable r"
| "test r (c # cs) = test (deriv c r) cs"

section \<open>Numeric coercion of strings\<close>

text \<open>
  \<^verbatim>\<open>Number(s)\<close> on a string follows the StringNumericLiteral grammar of the language:
  white space is trimmed, the empty string is 0, then a binary, octal or hexadecimal
  integer literal without sign, or a signed decimal literal with an optional fraction and
  exponent, or a signed \<^verbatim>\<open>Infinity\<close>; everything else is NaN. The mathematical
  value of a literal is exact; \<open>rnd\<close> is the rounding of a non-negative mathematical value
  to a double (which overflows to infinity), a parameter of the model.
\<close>

definition digitValue :: "char \<Rightarrow> nat" where
  "digitValue c =
     (if c \<in> set ''0123456789'' then of_char c - 48
      else if c \<in> set ''abcdef'' then of_char c - 87
      else if c \<in> set ''ABCDEF'' then of_char c - 55
      else 36)"

definition radixDigits :: "nat \<Rightarrow> string \<Rightarrow> bool" where
  "radixDigits b ds = (ds \<noteq> [] \<and> list_all (\<lambda>c. digitValue c < b) ds)"

definition radixVal :: "nat \<Rightarrow> string \<Rightarrow> nat" where
  "radixVal b ds = foldl (\<lambda>a c. a * b + digitValue c) 0 ds"

definition nonDecimalLiteral :: "string \<Rightarrow> nat option" where
  "nonDecimalLiteral t =
     (case t of
        z # x # ds \<Rightarrow>
          (let b = (if x \<in> set ''xX'' then 16 else if x \<in> set ''oO'' then 8
                    else if x \<in> set ''bB'' then 2 else 0)
           in if z = CHR ''0'' \<and> radixDigits b ds then Some (radixVal b ds) else None)
      | _ \<Rightarrow> None)"

definition pow10 :: "int \<Rightarrow> rat" where
  "pow10 k = (if 0 \<le> k then 10 ^ nat k else 1 / 10 ^ nat (- k))"

definition exponentPart :: "string \<Rightarrow> int option" where
  "exponentPart r =
     (case r of
        [] \<Rightarrow> Some 0
      | c # ds \<Rightarrow>
          if c \<in> set ''eE'' then
            (case ds of
               [] \<Rightarrow> None
             | s # es \<Rightarrow>
                 if s = CHR ''+'' then (if radixDigits 10 es then Some (int (radixVal 10 es)) else None)
                 else if s = CHR ''-'' then (if radixDigits 10 es then Some (- int (radixVal 10 es)) else None)
                 else (if radixDigits 10 ds then Some (int (radixVal 10 ds)) else None))
          else None)"

definition unsignedDecimal :: "(rat \<Rightarrow> jsnum) \<Rightarrow> string \<Rightarrow> jsnum" where
  "unsignedDecimal rnd u =
     (if u = ''Infinity'' then PosInfinity
      else
        let ip = takeWhile isDigit u;
            r1 = dropWhile isDigit u;
            hasDot = (case r1 of [] \<Rightarrow> False | c # _ \<Rightarrow> c = CHR ''.'');
            fp = (if hasDot then takeWhile isDigit (tl r1) else []);
            r2 = (if hasDot then dropWhile isDigit (tl r1) else r1)
        in if ip = [] \<and> fp = [] then NaN
           else (case exponentPart r2 of
                   None \<Rightarrow> NaN
                 | Some e \<Rightarrow> rnd (of_nat (radixVal 10 (ip @ fp)) * pow10 (e - int (length fp)))))"

definition strDecimal :: "(rat \<Rightarrow> jsnum) \<Rightarrow> string \<Rightarrow> jsnum" where
  "strDecimal rnd t =
     (case t of
        [] \<Rightarrow> NaN
      | c # u \<Rightarrow>
          if c = CHR ''+'' then unsignedDecimal rnd u
          else if c = CHR ''-'' then jsneg (unsignedDecimal rnd u)
          else unsignedDecimal rnd t)"

definition Number_str :: "(rat \<Rightarrow> jsnum) \<Rightarrow> string \<Rightarrow> jsnum" where
  "Number_str rnd s =
     (let t = trim s
      in if t = [] then Num 0
         else (case nonDecimalLiteral t of
                 Some n \<Rightarrow> rnd (of_nat n)
               | None \<Rightarrow> strDecimal rnd t))"

text \<open>\<^verbatim>\<open>Number(v)\<close> on any value.\<close>

fun Number_js :: "(rat \<Rightarrow> jsnum) \<Rightarrow> jsval \<Rightarrow> jsnum" where
  "Number_js rnd JUndefined = NaN"
| "Number_js rnd JNull = Num 0"
| "Number_js rnd (JBool b) = (if b then Num 1 else Num 0)"
| "Number_js rnd (JNum n) = n"
| "Number_js rnd (JStr s) = Number_str rnd s"
| "Number_js rnd (JObject s) = Number_str rnd s"

section \<open>services/mlMapper.ts\<close>

definition inferCategory :: "string \<Rightarrow> string" where
  "inferCategory name =
     (let n = toLowerCase name
      in if str_includes n ''shoe'' \<or> str_includes n ''sneaker'' then ''footwear''
         else if str_includes n ''phone'' \<or> str_includes n ''mobile'' then ''electronics''
         else if str_includes n ''shirt'' \<or> str_includes n ''t-shirt'' then ''apparel''
         else ''general'')"

text \<open>The pattern \<^verbatim>\<open>/^-?\d+(\.\d+)?$/\<close>.\<close>

definition strictNumberRe :: regex where
  "strictNumberRe =
     Seq (Opt (Lit CHR ''-'')) (Seq (Plus Digit) (Opt (Seq (Lit CHR ''.'') (Plus Digit))))"

text \<open>The result \<^verbatim>\<open>null\<close> is \<open>None\<close>.\<close>

definition parseStrictNumber :: "(rat \<Rightarrow> jsnum) \<Rightarrow> jsval \<Rightarrow> jsnum option" where
  "parseStrictNumber rnd v =
     (case v of
        JNum n \<Rightarrow> if isFinite n then Some n else None
      | JStr s \<Rightarrow>
          (let trimmed = trim s
           in if test strictNumberRe trimmed then Some (Number_str rnd trimmed) else None)
      | _ \<Rightarrow> None)"

section \<open>types.ts\<close>

text \<open>
  The analysis objects come from \<^verbatim>\<open>JSON.parse\<close> with a type cast only, and the mapper
  reads the prices as \<^verbatim>\<open>any\<close>, so the price fields hold any value. The competitor list
  is optional in the model because the code defends against its absence everywhere.
\<close>

record HistoricalPricePoint =
  h_date :: string
  h_price :: jsval

datatype StockStatus = InStock | LowStock | OutOfStock

datatype PriceTrend = TrendUp | TrendDown | TrendStable

record Competitor =
  c_url :: string
  c_productName :: string
  c_price :: jsval
  c_originalPrice :: "jsval option"
  c_discountPercentage :: "jsval option"
  c_stockStatus :: StockStatus
  c_priceTrend :: PriceTrend
  c_historicalPrices :: "HistoricalPricePoint list option"

record UserProduct =
  u_url :: "string option"
  u_productName :: string
  u_currentPrice :: jsval
  u_originalPrice :: "jsval option"
  u_discountPercentage :: "jsval option"
  u_historicalPrices :: "HistoricalPricePoint list option"

record WebSource =
  uri :: string
  title :: string

record ProductAnalysis =
  userProduct :: UserProduct
  competitors :: "Competitor list option"
  suggestedPrice :: jsval
  reasoning :: string
  marketSummary :: string
  historicalPriceAnalysis :: string
  sources :: "WebSource list option"

type_synonym AnalysisResult = "ProductAnalysis list"

record CsvProduct =
  productName :: string
  currentPrice :: jsnum
  userProductUrl :: string
  competitorUrls :: "string list"

section \<open>services/priceService.ts and the mapper's payload\<close>

record PredictPayload =
  current_price :: jsnum
  competitor_prices :: "jsnum list"
  category :: string

text \<open>
  The prediction service is outside the program and is reached over HTTP. The reply to a
  request is \<open>Rejected\<close> when \<^verbatim>\<open>fetch\<close> throws (no connection), with the message of the
  error, and otherwise a \<open>Response\<close> with its status and its body as \<^verbatim>\<open>res.json()\<close> reads
  it. The body is \<open>Unreadable\<close> when \<^verbatim>\<open>res.json()\<close> throws or gives \<^verbatim>\<open>null\<close>, of which no
  property can be read; otherwise it is \<open>Fields\<close>, the properties of the parsed value (none
  for a primitive or an array). A property holds an array (\<open>Items\<close>, its elements) or any
  other value (\<open>Plain\<close>).
\<close>

datatype JsonField = Plain jsval | Items "jsval list"

datatype JsonBody = Unreadable string | Fields "string \<Rightarrow> JsonField option"

datatype HttpReply = Rejected string | Response nat JsonBody

text \<open>\<^verbatim>\<open>res.ok\<close>: the status is in the range 200 to 299.\<close>

definition res_ok :: "nat \<Rightarrow> bool" where
  "res_ok status' = (200 \<le> status' \<and> status' \<le> 299)"

text \<open>
  The message of the error thrown for a response that is not \<^verbatim>\<open>ok\<close>: the property
  \<^verbatim>\<open>detail\<close> of the body when it is a string, the default otherwise. A body that cannot
  be read counts as \<^verbatim>\<open>{}\<close> there.
\<close>

definition failureMessage :: "string \<Rightarrow> nat \<Rightarrow> JsonBody \<Rightarrow> string" where
  "failureMessage what status' detail =
     (case detail of
        Fields d \<Rightarrow>
          (case d ''detail'' of
             Some (Plain (JStr s)) \<Rightarrow> s
           | _ \<Rightarrow> what @ '' failed ('' @ showNat status' @ '')'')
      | Unreadable e \<Rightarrow> what @ '' failed ('' @ showNat status' @ '')'')"

text \<open>
  A call of the two functions either throws (\<open>Inl\<close> the message) or returns.
  \<^verbatim>\<open>predictPrice\<close> returns \<^verbatim>\<open>Number(value)\<close>, always a number, where \<^verbatim>\<open>value\<close> is the
  property \<^verbatim>\<open>predicted_price\<close> of the body, or its first element when it is an array.
\<close>

type_synonym PredictPrice = "PredictPayload \<Rightarrow> string + jsnum"

type_synonym PredictBatch = "PredictPayload list \<Rightarrow> string + jsval list"

definition predictPrice :: "(rat \<Rightarrow> jsnum) \<Rightarrow> (PredictPayload \<Rightarrow> HttpReply) \<Rightarrow> PredictPrice" where
  "predictPrice rnd fetch payload =
     (case fetch payload of
        Rejected e \<Rightarrow> Inl e
      | Response status' body \<Rightarrow>
          if \<not> res_ok status' then Inl (failureMessage ''Prediction'' status' body)
          else (case body of
                  Unreadable e \<Rightarrow> Inl e
                | Fields data' \<Rightarrow>
                    (let value = (case data' ''predicted_price'' of
                                    None \<Rightarrow> JUndefined
                                  | Some (Plain v) \<Rightarrow> v
                                  | Some (Items []) \<Rightarrow> JUndefined
                                  | Some (Items (v # rest)) \<Rightarrow> v)
                     in Inr (Number_js rnd value))))"

text \<open>
  \<^verbatim>\<open>predictBatch\<close> returns the property \<^verbatim>\<open>predicted_prices\<close> of the body as it is, so the
  elements of the array are any values. When the property is no array, the
  \<^verbatim>\<open>preds.forEach\<close> of the caller throws inside the same \<^verbatim>\<open>try\<close>, which is the outcome of
  a failed call; the message of that TypeError is the engine's and is only logged.
\<close>

definition predictBatch :: "(PredictPayload list \<Rightarrow> HttpReply) \<Rightarrow> PredictBatch" where
  "predictBatch fetch payloads =
     (case fetch payloads of
        Rejected e \<Rightarrow> Inl e
      | Response status' body \<Rightarrow>
          if \<not> res_ok status' then Inl (failureMessage ''Batch prediction'' status' body)
          else (case body of
                  Unreadable e \<Rightarrow> Inl e
                | Fields data' \<Rightarrow>
                    (case data' ''predicted_prices'' of
                       Some (Items preds) \<Rightarrow> Inr preds
                     | _ \<Rightarrow> Inl ''preds.forEach is not a function'')))"

definition analysisToPredictPayload :: "(rat \<Rightarrow> jsnum) \<Rightarrow> ProductAnalysis \<Rightarrow> PredictPayload" where
  "analysisToPredictPayload rnd a =
     (let competitors =
            map the (filter (\<lambda>v. v \<noteq> None)
              (map (\<lambda>c. parseStrictNumber rnd (c_price c))
                 (case competitors a of None \<Rightarrow> [] | Some cs \<Rightarrow> cs)));
          userPrice = parseStrictNumber rnd (u_currentPrice (userProduct a))
      in \<lparr> current_price = (case userPrice of None \<Rightarrow> Num 0 | Some p \<Rightarrow> p),
           competitor_prices =
             (if length competitors > 0 then competitors
              else [case userPrice of None \<Rightarrow> Num 0 | Some p \<Rightarrow> p]),
           category = inferCategory (u_productName (userProduct a)) \<rparr>)"

definition analysesToPredictPayloads :: "(rat \<Rightarrow> jsnum) \<Rightarrow> ProductAnalysis list \<Rightarrow> PredictPayload list" where
  "analysesToPredictPayloads rnd analyses = map (analysisToPredictPayload rnd) analyses"

section \<open>services/geminiService.ts\<close>

text \<open>
  \<^verbatim>\<open>performSingleAnalysis\<close> is the call to the generative model: it resolves to an analysis
  or rejects with an error message. The first argument of the model's \<open>ai\<close> is the position
  of the call in its batch, so that two calls with equal arguments may end differently.
\<close>

datatype UserIdentifier = ByUrl string | ByNamePrice string jsnum

type_synonym AiService = "nat \<Rightarrow> UserIdentifier \<Rightarrow> string list \<Rightarrow> string + ProductAnalysis"

definition analyzeSingleProduct ::
  "AiService \<Rightarrow> string \<Rightarrow> string list \<Rightarrow> string + ProductAnalysis" where
  "analyzeSingleProduct ai userProductUrl' competitorUrls' =
     (if userProductUrl' = [] then Inl ''User product URL is required for single product analysis.''
      else ai 0 (ByUrl userProductUrl') competitorUrls')"

definition userIdentifier :: "CsvProduct \<Rightarrow> UserIdentifier" where
  "userIdentifier product =
     (if userProductUrl product \<noteq> [] then ByUrl (userProductUrl product)
      else ByNamePrice (productName product) (currentPrice product))"

text \<open>\<^verbatim>\<open>Promise.allSettled\<close> over the calls: every outcome, in the order of the products.\<close>

definition settledResults :: "AiService \<Rightarrow> CsvProduct list \<Rightarrow> (string + ProductAnalysis) list" where
  "settledResults ai products =
     map (\<lambda>(index, product). ai index (userIdentifier product) (competitorUrls product))
       (zip [0..<length products] products)"

text \<open>The \<^verbatim>\<open>results.forEach\<close> loop, with the two arrays it pushes to.\<close>

fun collectResults ::
  "CsvProduct list \<Rightarrow> (string + ProductAnalysis) list \<Rightarrow> nat \<Rightarrow>
   ProductAnalysis list \<times> string list \<Rightarrow> ProductAnalysis list \<times> string list" where
  "collectResults products [] index acc = acc"
| "collectResults products (result # rest) index (successfulAnalyses, failedAnalyses) =
     (case result of
        Inr v \<Rightarrow> collectResults products rest (Suc index) (successfulAnalyses @ [v], failedAnalyses)
      | Inl reason \<Rightarrow>
          collectResults products rest (Suc index)
            (successfulAnalyses, failedAnalyses @ [productName (products ! index)]))"

definition analyzeBatchProducts :: "AiService \<Rightarrow> CsvProduct list \<Rightarrow> string + ProductAnalysis list" where
  "analyzeBatchProducts ai products =
     (let results = settledResults ai products;
          (successfulAnalyses, failedAnalyses) = collectResults products results 0 ([], [])
      in if length successfulAnalyses = 0 \<and> length results > 0
         then Inl (''All product analyses failed. The following products could not be analyzed: '' @
                   join '', '' failedAnalyses @ ''. Please check the console for more details.'')
         else Inr successfulAnalyses)"

text \<open>The value of a settled outcome, when it is fulfilled.\<close>

definition fulfilled :: "string + ProductAnalysis \<Rightarrow> ProductAnalysis option" where
  "fulfilled r = (case r of Inl reason \<Rightarrow> None | Inr v \<Rightarrow> Some v)"

section \<open>App.tsx\<close>

datatype AnalysisInput = UrlInput string "string list" | CsvInput "CsvProduct list"

datatype Status = Idle | Loading | Success | Error

record AppState =
  status :: Status
  data :: "ProductAnalysis list option"
  error :: "string option"

text \<open>
  The \<^verbatim>\<open>preds.forEach\<close> loop of the batch branch. \<^verbatim>\<open>analyses[i]\<close> beyond the end of the
  array is \<^verbatim>\<open>undefined\<close>, and the assignment to its field throws a TypeError: the loop
  stops there, the surrounding \<^verbatim>\<open>catch\<close> swallows the error, and the assignments made
  so far stay.
\<close>

fun applyPredictions ::
  "(rat \<Rightarrow> jsnum) \<Rightarrow> jsval list \<Rightarrow> nat \<Rightarrow> ProductAnalysis list \<Rightarrow> ProductAnalysis list" where
  "applyPredictions rnd [] i analyses = analyses"
| "applyPredictions rnd (p # preds) i analyses =
     (if Number_isFinite p then
        (if i < length analyses then
           applyPredictions rnd preds (Suc i)
             (analyses[i := (analyses ! i)\<lparr>suggestedPrice := JNum (Math_round (Number_js rnd p))\<rparr>])
         else analyses)
      else applyPredictions rnd preds (Suc i) analyses)"

text \<open>
  Whether that loop throws, over \<open>n\<close> analyses: then the \<^verbatim>\<open>catch\<close> of the batch branch
  runs and logs that the AI's suggestions are used.
\<close>

fun applyPredictionsThrows :: "jsval list \<Rightarrow> nat \<Rightarrow> nat \<Rightarrow> bool" where
  "applyPredictionsThrows [] i n = False"
| "applyPredictionsThrows (p # preds) i n =
     (if Number_isFinite p then
        (if i < n then applyPredictionsThrows preds (Suc i) n else True)
      else applyPredictionsThrows preds (Suc i) n)"

text \<open>
  The two \<^verbatim>\<open>try\<close> blocks of \<^verbatim>\<open>handleAnalysis\<close>. The functions of
  \<^verbatim>\<open>services/priceService.ts\<close> are arguments \<open>predictPrice'\<close> and \<open>predictBatch'\<close>, so that
  a statement can range over everything a call may do.
\<close>

definition refineSingle :: "(rat \<Rightarrow> jsnum) \<Rightarrow> PredictPrice \<Rightarrow> ProductAnalysis \<Rightarrow> ProductAnalysis" where
  "refineSingle rnd predictPrice' singleResult =
     (case predictPrice' (analysisToPredictPayload rnd singleResult) of
        Inr predicted \<Rightarrow>
          if isFinite predicted
          then singleResult\<lparr>suggestedPrice := JNum (Math_round (Number_js rnd (JNum predicted)))\<rparr>
          else singleResult
      | Inl e \<Rightarrow> singleResult)"

definition refineBatch :: "(rat \<Rightarrow> jsnum) \<Rightarrow> PredictBatch \<Rightarrow> ProductAnalysis list \<Rightarrow> ProductAnalysis list" where
  "refineBatch rnd predictBatch' analyses =
     (case predictBatch' (analysesToPredictPayloads rnd analyses) of
        Inr preds \<Rightarrow> applyPredictions rnd preds 0 analyses
      | Inl e \<Rightarrow> analyses)"

text \<open>The state \<^verbatim>\<open>handleAnalysis\<close> ends in.\<close>

definition handleAnalysis ::
  "(rat \<Rightarrow> jsnum) \<Rightarrow> AiService \<Rightarrow> PredictPrice \<Rightarrow> PredictBatch \<Rightarrow> AnalysisInput \<Rightarrow> AppState" where
  "handleAnalysis rnd ai predictPrice' predictBatch' input =
     (case input of
        UrlInput userProductUrl' competitorUrls' \<Rightarrow>
          (case analyzeSingleProduct ai userProductUrl' competitorUrls' of
             Inl errorMessage \<Rightarrow> \<lparr> status = Error, data = None, error = Some errorMessage \<rparr>
           | Inr singleResult \<Rightarrow>
               \<lparr> status = Success, data = Some [refineSingle rnd predictPrice' singleResult],
                 error = None \<rparr>)
      | CsvInput products \<Rightarrow>
          (case analyzeBatchProducts ai products of
             Inl errorMessage \<Rightarrow> \<lparr> status = Error, data = None, error = Some errorMessage \<rparr>
           | Inr analyses \<Rightarrow>
               \<lparr> status = Success, data = Some (refineBatch rnd predictBatch' analyses),
                 error = None \<rparr>))"

section \<open>CSV ingestion: parseCsv\<close>

text \<open>
  Every \<^verbatim>\<open>throw new Error(...)\<close> of \<^verbatim>\<open>parseCsv\<close> is a constructor carrying what the
  message interpolates; \<open>message\<close> is the text thrown.
\<close>

datatype CsvError =
    EmptyFile
  | MissingColumn string
  | WrongColumnCount nat nat nat
  | EmptyProductName nat
  | EmptyCurrentPrice nat
  | InvalidNumber nat string
  | NegativePrice nat string

definition DQ :: char where
  "DQ = CHR 0x22"

fun message :: "CsvError \<Rightarrow> string" where
  "message EmptyFile = ''CSV parsing failed: The file is empty or contains only a header row.''"
| "message (MissingColumn required) =
     ''CSV parsing failed: The header is missing the required column '' @ [DQ] @ required @ [DQ] @ ''.''"
| "message (WrongColumnCount rowNum expected found) =
     ''CSV parsing failed on row '' @ showNat rowNum @ '': Incorrect number of columns. Expected '' @
     showNat expected @ '', but found '' @ showNat found @ ''. Please check for extra commas.''"
| "message (EmptyProductName rowNum) =
     ''CSV parsing failed on row '' @ showNat rowNum @ '': The 'productName' column cannot be empty.''"
| "message (EmptyCurrentPrice rowNum) =
     ''CSV parsing failed on row '' @ showNat rowNum @ '': The 'currentPrice' column cannot be empty.''"
| "message (InvalidNumber rowNum currentPriceStr) =
     ''CSV parsing failed on row '' @ showNat rowNum @ '': The value '' @ [DQ] @ currentPriceStr @ [DQ] @
     '' in 'currentPrice' is not a valid number.''"
| "message (NegativePrice rowNum currentPriceStr) =
     ''CSV parsing failed on row '' @ showNat rowNum @ '': The price '' @ [DQ] @ currentPriceStr @ [DQ] @
     '' cannot be negative.''"

text \<open>The row number an error names.\<close>

fun errorRow :: "CsvError \<Rightarrow> nat option" where
  "errorRow EmptyFile = None"
| "errorRow (MissingColumn required) = None"
| "errorRow (WrongColumnCount rowNum expected found) = Some rowNum"
| "errorRow (EmptyProductName rowNum) = Some rowNum"
| "errorRow (EmptyCurrentPrice rowNum) = Some rowNum"
| "errorRow (InvalidNumber rowNum currentPriceStr) = Some rowNum"
| "errorRow (NegativePrice rowNum currentPriceStr) = Some rowNum"

text \<open>
  The \<^verbatim>\<open>header.reduce\<close> that fills \<^verbatim>\<open>productData\<close>: a later column of the same
  name overwrites an earlier one; an empty value stays empty, any other is trimmed.
\<close>

definition productData :: "string list \<Rightarrow> string list \<Rightarrow> (string \<rightharpoonup> string)" where
  "productData header values' =
     foldl (\<lambda>obj (col, i). obj(col \<mapsto> (if values' ! i \<noteq> [] then trim (values' ! i) else [])))
       Map.empty (zip header [0..<length header])"

text \<open>The callback of \<^verbatim>\<open>rows.map\<close>.\<close>

definition parseRow :: "(rat \<Rightarrow> jsnum) \<Rightarrow> string list \<Rightarrow> nat \<Rightarrow> string \<Rightarrow> CsvError + CsvProduct" where
  "parseRow rnd header rowNum row =
     (let values' = splitOn CHR '','' row
      in if length values' \<noteq> length header
         then Inl (WrongColumnCount rowNum (length header) (length values'))
         else
           let pd = productData header values';
               productName' = pd ''productName'';
               currentPriceStr = pd ''currentPrice''
           in if productName' = None \<or> productName' = Some [] then Inl (EmptyProductName rowNum)
              else if currentPriceStr = None \<or> currentPriceStr = Some [] then Inl (EmptyCurrentPrice rowNum)
              else
                let priceAsNumber = Number_str rnd (the currentPriceStr)
                in if \<not> isFinite priceAsNumber then Inl (InvalidNumber rowNum (the currentPriceStr))
                   else if jsLess0 priceAsNumber then Inl (NegativePrice rowNum (the currentPriceStr))
                   else Inr \<lparr> productName = the productName',
                              currentPrice = priceAsNumber,
                              userProductUrl = (case pd ''userProductUrl'' of None \<Rightarrow> [] | Some u \<Rightarrow> u),
                              competitorUrls =
                                (case pd ''competitorUrls'' of
                                   None \<Rightarrow> []
                                 | Some u \<Rightarrow>
                                     if u = [] then []
                                     else filter (\<lambda>x. x \<noteq> []) (map trim (splitOn CHR '';'' u))) \<rparr>)"

text \<open>\<^verbatim>\<open>rows.map\<close> with a callback that throws: the first error ends the whole map.\<close>

fun parseRows :: "(rat \<Rightarrow> jsnum) \<Rightarrow> string list \<Rightarrow> nat \<Rightarrow> string list \<Rightarrow> CsvError + CsvProduct list" where
  "parseRows rnd header index [] = Inr []"
| "parseRows rnd header index (row # rows) =
     (case parseRow rnd header (index + 2) row of
        Inl e \<Rightarrow> Inl e
      | Inr product \<Rightarrow>
          (case parseRows rnd header (Suc index) rows of
             Inl e \<Rightarrow> Inl e
           | Inr products \<Rightarrow> Inr (product # products)))"

definition nonBlankLines :: "string \<Rightarrow> string list" where
  "nonBlankLines text' = filter (\<lambda>line. trim line \<noteq> []) (splitLines text')"

definition csvHeader :: "string \<Rightarrow> string list" where
  "csvHeader text' = map trim (splitOn CHR '','' (hd (nonBlankLines text')))"

definition parseCsv :: "(rat \<Rightarrow> jsnum) \<Rightarrow> string \<Rightarrow> CsvError + CsvProduct list" where
  "parseCsv rnd text' =
     (let lines = nonBlankLines text'
      in if length lines < 2 then Inl EmptyFile
         else
           let header = map trim (splitOn CHR '','' (hd lines))
           in if ''productName'' \<notin> set header then Inl (MissingColumn ''productName'')
              else if ''currentPrice'' \<notin> set header then Inl (MissingColumn ''currentPrice'')
              else parseRows rnd header 0 (tl lines))"

text \<open>The position of the last column of a given name: the one whose value the object keeps.\<close>

definition lastIndex :: "string list \<Rightarrow> string \<Rightarrow> nat" where
  "lastIndex header col = last (filter (\<lambda>i. header ! i = col) [0..<length header])"

section \<open>CSV export: escapeCsvField and exportToCsv\<close>

text \<open>
  \<^verbatim>\<open>String(v)\<close>. The digits of a finite number are those of the shortest decimal that
  reads back as the same double; \<open>ns\<close> stands for that conversion.
\<close>

fun String_js :: "(rat \<Rightarrow> string) \<Rightarrow> jsval \<Rightarrow> string" where
  "String_js ns JUndefined = ''undefined''"
| "String_js ns JNull = ''null''"
| "String_js ns (JBool b) = (if b then ''true'' else ''false'')"
| "String_js ns (JNum (Num q)) = ns q"
| "String_js ns (JNum NaN) = ''NaN''"
| "String_js ns (JNum PosInfinity) = ''Infinity''"
| "String_js ns (JNum NegInfinity) = ''-Infinity''"
| "String_js ns (JStr s) = s"
| "String_js ns (JObject s) = s"

text \<open>\<^verbatim>\<open>s.replace(/"/g, '""')\<close>.\<close>

definition doubleQuotes :: "string \<Rightarrow> string" where
  "doubleQuotes s = concat (map (\<lambda>c. if c = DQ then [DQ, DQ] else [c]) s)"

definition escapeCsvField :: "(rat \<Rightarrow> string) \<Rightarrow> jsval \<Rightarrow> string" where
  "escapeCsvField ns field =
     (if field = JNull \<or> field = JUndefined then []
      else
        let stringField = String_js ns field
        in if str_includes stringField '','' \<or> str_includes stringField [DQ] \<or>
              str_includes stringField [LF]
           then [DQ] @ doubleQuotes stringField @ [DQ]
           else stringField)"

text \<open>
  The inverse rule, in the specification's words; the repository has no reader for its
  own exports, so the definitions named \<open>spec_\<close> follow the specification. A field in
  double quotes loses them and every doubled quote inside becomes one; any other field is
  taken as it is.
\<close>

fun spec_undoubleQuotes :: "string \<Rightarrow> string" where
  "spec_undoubleQuotes (a # b # cs) =
     (if a = DQ \<and> b = DQ then DQ # spec_undoubleQuotes cs else a # spec_undoubleQuotes (b # cs))"
| "spec_undoubleQuotes cs = cs"

definition spec_unescapeCsvField :: "string \<Rightarrow> string" where
  "spec_unescapeCsvField s =
     (case s of
        [] \<Rightarrow> []
      | c # cs \<Rightarrow> if c = DQ \<and> cs \<noteq> [] \<and> last cs = DQ then spec_undoubleQuotes (butlast cs) else s)"

text \<open>
  Reading one record of the export by the same inverse rule: a double quote opens or
  closes a quoted stretch, and a comma separates two fields unless it stands inside one.
  \<open>outsideCommas q s\<close> counts the separating commas of \<open>s\<close> and \<open>endsInQuotes q s\<close> tells
  whether \<open>s\<close> ends inside a quoted stretch, \<open>q\<close> telling whether it starts inside one.
\<close>

fun outsideCommas :: "bool \<Rightarrow> string \<Rightarrow> nat" where
  "outsideCommas q [] = 0"
| "outsideCommas q (c # cs) =
     (if c = DQ then outsideCommas (\<not> q) cs
      else if c = CHR '','' \<and> \<not> q then Suc (outsideCommas q cs)
      else outsideCommas q cs)"

fun endsInQuotes :: "bool \<Rightarrow> string \<Rightarrow> bool" where
  "endsInQuotes q [] = q"
| "endsInQuotes q (c # cs) = (if c = DQ then endsInQuotes (\<not> q) cs else endsInQuotes q cs)"

definition spec_csvFieldCount :: "string \<Rightarrow> nat" where
  "spec_csvFieldCount record = Suc (outsideCommas False record)"

text \<open>A field that leaves no separating comma and no open quote behind.\<close>

definition sealed :: "string \<Rightarrow> bool" where
  "sealed e \<longleftrightarrow> outsideCommas False e = 0 \<and> endsInQuotes False e = False"

fun stockStatusString :: "StockStatus \<Rightarrow> string" where
  "stockStatusString InStock = ''In Stock''"
| "stockStatusString LowStock = ''Low Stock''"
| "stockStatusString OutOfStock = ''Out of Stock''"

fun priceTrendString :: "PriceTrend \<Rightarrow> string" where
  "priceTrendString TrendUp = ''up''"
| "priceTrendString TrendDown = ''down''"
| "priceTrendString TrendStable = ''stable''"

text \<open>\<^verbatim>\<open>analysis.competitors?.length || 0\<close>.\<close>

definition competitorCount :: "ProductAnalysis \<Rightarrow> nat" where
  "competitorCount analysis = (case competitors analysis of None \<Rightarrow> 0 | Some cs \<Rightarrow> length cs)"

text \<open>\<^verbatim>\<open>Math.max(0, ...data.map(...))\<close>.\<close>

definition maxCompetitors :: "ProductAnalysis list \<Rightarrow> nat" where
  "maxCompetitors data' = foldl max 0 (map competitorCount data')"

definition baseHeaders :: "string list" where
  "baseHeaders =
     [''Product Name'', ''Current Price'', ''Suggested Price'', ''Market Summary'',
      ''Historical Price Analysis'', ''Reasoning'']"

definition competitorHeaders :: "nat \<Rightarrow> string list" where
  "competitorHeaders n =
     concat (map (\<lambda>i. [''Competitor '' @ showNat i @ '' Name'',
                        ''Competitor '' @ showNat i @ '' Price'',
                        ''Competitor '' @ showNat i @ '' Stock Status'',
                        ''Competitor '' @ showNat i @ '' Price Trend'']) [1..<Suc n])"

definition csvHeaders :: "ProductAnalysis list \<Rightarrow> string list" where
  "csvHeaders data' = baseHeaders @ competitorHeaders (maxCompetitors data')"

definition baseRow :: "(rat \<Rightarrow> string) \<Rightarrow> ProductAnalysis \<Rightarrow> string list" where
  "baseRow ns analysis =
     [escapeCsvField ns (JStr (u_productName (userProduct analysis))),
      escapeCsvField ns (u_currentPrice (userProduct analysis)),
      escapeCsvField ns (suggestedPrice analysis),
      escapeCsvField ns (JStr (marketSummary analysis)),
      escapeCsvField ns (JStr (historicalPriceAnalysis analysis)),
      escapeCsvField ns (JStr (reasoning analysis))]"

text \<open>One turn of the loop that fills \<^verbatim>\<open>competitorRowData\<close>.\<close>

definition competitorCells :: "(rat \<Rightarrow> string) \<Rightarrow> ProductAnalysis \<Rightarrow> nat \<Rightarrow> string list" where
  "competitorCells ns analysis i =
     (case competitors analysis of
        None \<Rightarrow> [[], [], [], []]
      | Some cs \<Rightarrow>
          if i < length cs then
            [escapeCsvField ns (JStr (c_productName (cs ! i))),
             escapeCsvField ns (c_price (cs ! i)),
             escapeCsvField ns (JStr (stockStatusString (c_stockStatus (cs ! i)))),
             escapeCsvField ns (JStr (priceTrendString (c_priceTrend (cs ! i))))]
          else [[], [], [], []])"

definition competitorRowData :: "(rat \<Rightarrow> string) \<Rightarrow> nat \<Rightarrow> ProductAnalysis \<Rightarrow> string list" where
  "competitorRowData ns n analysis = concat (map (competitorCells ns analysis) [0..<n])"

text \<open>The fields of one row, before they are joined.\<close>

definition csvRow :: "(rat \<Rightarrow> string) \<Rightarrow> nat \<Rightarrow> ProductAnalysis \<Rightarrow> string list" where
  "csvRow ns n analysis = baseRow ns analysis @ competitorRowData ns n analysis"

text \<open>
  \<^verbatim>\<open>exportToCsv\<close> hands \<^verbatim>\<open>csvContent\<close> to the download; with no data it warns and
  returns, which is \<open>None\<close>.
\<close>

definition exportToCsv :: "(rat \<Rightarrow> string) \<Rightarrow> ProductAnalysis list \<Rightarrow> string option" where
  "exportToCsv ns data' =
     (if length data' = 0 then None
      else
        let headers = csvHeaders data';
            rows = map (\<lambda>analysis. join '','' (csvRow ns (maxCompetitors data') analysis)) data'
        in Some (join [LF] (join '','' headers # rows)))"

text \<open>The four header names of competitor \<open>i\<close>, as one turn of the header loop pushes them.\<close>

definition headerGroup :: "nat \<Rightarrow> string list" where
  "headerGroup i =
     [''Competitor '' @ showNat i @ '' Name'', ''Competitor '' @ showNat i @ '' Price'',
      ''Competitor '' @ showNat i @ '' Stock Status'', ''Competitor '' @ showNat i @ '' Price Trend'']"

section \<open>Sample data\<close>

definition sampleCompetitor :: "string \<Rightarrow> Competitor" where
  "sampleCompetitor name =
     \<lparr> c_url = ''https://shop.example/'' @ name, c_productName = name, c_price = JNum (Num 480),
       c_originalPrice = None, c_discountPercentage = None, c_stockStatus = InStock,
       c_priceTrend = TrendStable, c_historicalPrices = None \<rparr>"

definition sampleAnalysis :: "string \<Rightarrow> Competitor list \<Rightarrow> ProductAnalysis" where
  "sampleAnalysis name cs =
     \<lparr> userProduct =
         \<lparr> u_url = None, u_productName = name, u_currentPrice = JNum (Num 520),
           u_originalPrice = None, u_discountPercentage = None, u_historicalPrices = None \<rparr>,
       competitors = Some cs,
       suggestedPrice = JNum (Num 500),
       reasoning = ''Priced just below the category median.'',
       marketSummary = ''Three sellers, stable prices.'',
       historicalPriceAnalysis = ''No price war in the last 30 days.'',
       sources = None \<rparr>"

definition sampleProduct :: "string \<Rightarrow> CsvProduct" where
  "sampleProduct name =
     \<lparr> productName = name, currentPrice = Num 520, userProductUrl = [], competitorUrls = [] \<rparr>"

text \<open>A number conversion for whole non-negative numbers, which is all the samples hold.\<close>

definition sampleNumberString :: "rat \<Rightarrow> string" where
  "sampleNumberString q = showNat (nat \<lfloor>q\<rfloor>)"

text \<open>A generative model that fails on the second product of a batch and answers the others.\<close>

definition sampleAi :: AiService where
  "sampleAi index ident urls =
     (if index = 1 then Inl ''Failed to get analysis from AI: quota exceeded.''
      else Inr (sampleAnalysis (case ident of ByUrl u \<Rightarrow> u | ByNamePrice n p \<Rightarrow> n) []))"

section \<open>The regular expression matcher is correct\<close>

lemma conc_nil_iff: "[] \<in> conc A B \<longleftrightarrow> [] \<in> A \<and> [] \<in> B"
  by (auto simp: conc_def)

lemma nullable_lang: "nullable r \<longleftrightarrow> [] \<in> lang r"
  by (induction r) (auto simp: conc_nil_iff intro: star.star_nil)

lemma conc_cons_iff:
  "a # w \<in> conc A B \<longleftrightarrow> ([] \<in> A \<and> a # w \<in> B) \<or> (\<exists>u v. w = u @ v \<and> a # u \<in> A \<and> v \<in> B)"
proof
  assume "a # w \<in> conc A B"
  then obtain xs ys where split: "a # w = xs @ ys" "xs \<in> A" "ys \<in> B"
    by (auto simp: conc_def)
  show "([] \<in> A \<and> a # w \<in> B) \<or> (\<exists>u v. w = u @ v \<and> a # u \<in> A \<and> v \<in> B)"
  proof (cases xs)
    case Nil
    with split show ?thesis by simp
  next
    case (Cons x xs')
    with split have "w = xs' @ ys" "a # xs' \<in> A" by simp_all
    with split show ?thesis by blast
  qed
next
  assume "([] \<in> A \<and> a # w \<in> B) \<or> (\<exists>u v. w = u @ v \<and> a # u \<in> A \<and> v \<in> B)"
  then show "a # w \<in> conc A B"
  proof
    assume "[] \<in> A \<and> a # w \<in> B"
    then have "[] @ (a # w) \<in> conc A B" unfolding conc_def by blast
    then show ?thesis by simp
  next
    assume "\<exists>u v. w = u @ v \<and> a # u \<in> A \<and> v \<in> B"
    then obtain u v where "w = u @ v" "a # u \<in> A" "v \<in> B" by blast
    then have "(a # u) @ v \<in> conc A B" unfolding conc_def by blast
    with \<open>w = u @ v\<close> show ?thesis by simp
  qed
qed

lemma star_cons_split:
  "w \<in> star A \<Longrightarrow> w = a # t \<Longrightarrow> \<exists>u v. t = u @ v \<and> a # u \<in> A \<and> v \<in> star A"
proof (induction arbitrary: t rule: star.induct)
  case star_nil
  then show ?case by simp
next
  case (star_app xs ys)
  show ?case
  proof (cases xs)
    case Nil
    with star_app show ?thesis by simp
  next
    case (Cons x xs')
    with star_app.prems have "t = xs' @ ys" "x = a" by simp_all
    with star_app.hyps Cons show ?thesis by blast
  qed
qed

lemma star_cons_iff:
  "a # w \<in> star A \<longleftrightarrow> (\<exists>u v. w = u @ v \<and> a # u \<in> A \<and> v \<in> star A)"
proof
  assume "a # w \<in> star A"
  then show "\<exists>u v. w = u @ v \<and> a # u \<in> A \<and> v \<in> star A"
    using star_cons_split by blast
next
  assume "\<exists>u v. w = u @ v \<and> a # u \<in> A \<and> v \<in> star A"
  then obtain u v where "w = u @ v" "a # u \<in> A" "v \<in> star A" by blast
  then have "(a # u) @ v \<in> star A" by (blast intro: star.star_app)
  with \<open>w = u @ v\<close> show "a # w \<in> star A" by simp
qed

lemma deriv_lang: "w \<in> lang (deriv a r) \<longleftrightarrow> a # w \<in> lang r"
proof (induction r arbitrary: w)
  case (Seq r s)
  then show ?case
    by (auto simp: conc_cons_iff nullable_lang) (auto simp: conc_def)
next
  case (Star r)
  then show ?case
    by (auto simp: star_cons_iff) (auto simp: conc_def)
qed (auto simp: conc_def)

lemma test_lang: "test r w \<longleftrightarrow> w \<in> lang r"
  by (induction w arbitrary: r) (simp_all add: nullable_lang deriv_lang)

section \<open>The strict number parser\<close>

lemma star_digit_iff: "w \<in> star (lang Digit) \<longleftrightarrow> list_all isDigit w"
proof
  assume "w \<in> star (lang Digit)"
  then show "list_all isDigit w"
    by (induction rule: star.induct) auto
next
  assume "list_all isDigit w"
  then show "w \<in> star (lang Digit)"
  proof (induction w)
    case Nil
    show ?case by (rule star.star_nil)
  next
    case (Cons c w)
    then have "[c] \<in> lang Digit" "w \<in> star (lang Digit)" by auto
    then have "[c] @ w \<in> star (lang Digit)" by (rule star.star_app)
    then show ?case by simp
  qed
qed

lemma digit_cons_iff: "a # u \<in> lang Digit \<longleftrightarrow> u = [] \<and> isDigit a"
  by auto

lemma plus_digit_iff: "w \<in> lang (Plus Digit) \<longleftrightarrow> w \<noteq> [] \<and> list_all isDigit w"
proof (cases w)
  case Nil
  then show ?thesis by (simp add: Plus_def conc_nil_iff)
next
  case (Cons a t)
  have "a # t \<in> conc (lang Digit) (star (lang Digit)) \<longleftrightarrow> isDigit a \<and> list_all isDigit t"
    unfolding conc_cons_iff digit_cons_iff star_digit_iff by auto
  with Cons show ?thesis by (simp add: Plus_def)
qed

lemma opt_lang: "w \<in> lang (Opt r) \<longleftrightarrow> w = [] \<or> w \<in> lang r"
  by (auto simp: Opt_def)

lemma frac_lang:
  "fr \<in> lang (Opt (Seq (Lit CHR ''.'') (Plus Digit))) \<longleftrightarrow>
     fr = [] \<or> (\<exists>fs. fr = CHR ''.'' # fs \<and> fs \<noteq> [] \<and> list_all isDigit fs)"
proof -
  have "fr \<in> lang (Seq (Lit CHR ''.'') (Plus Digit)) \<longleftrightarrow>
      (\<exists>fs. fr = CHR ''.'' # fs \<and> fs \<in> lang (Plus Digit))"
    by (auto simp: conc_def)
  then show ?thesis
    unfolding opt_lang plus_digit_iff by simp
qed

lemma conc_iff: "w \<in> conc A B \<longleftrightarrow> (\<exists>xs ys. w = xs @ ys \<and> xs \<in> A \<and> ys \<in> B)"
  by (auto simp: conc_def)

lemma strictNumberRe_lang:
  "w \<in> lang strictNumberRe \<longleftrightarrow>
     (\<exists>sg ds fr. w = sg @ ds @ fr \<and> (sg = [] \<or> sg = ''-'') \<and> ds \<noteq> [] \<and> list_all isDigit ds \<and>
        (fr = [] \<or> (\<exists>fs. fr = CHR ''.'' # fs \<and> fs \<noteq> [] \<and> list_all isDigit fs)))"
proof -
  have "w \<in> lang strictNumberRe \<longleftrightarrow>
      (\<exists>sg rest. w = sg @ rest \<and> sg \<in> lang (Opt (Lit CHR ''-'')) \<and>
         (\<exists>ds fr. rest = ds @ fr \<and> ds \<in> lang (Plus Digit) \<and>
            fr \<in> lang (Opt (Seq (Lit CHR ''.'') (Plus Digit)))))"
    unfolding strictNumberRe_def lang.simps(6) conc_iff ..
  also have "\<dots> \<longleftrightarrow>
      (\<exists>sg ds fr. w = sg @ ds @ fr \<and> sg \<in> lang (Opt (Lit CHR ''-'')) \<and> ds \<in> lang (Plus Digit) \<and>
            fr \<in> lang (Opt (Seq (Lit CHR ''.'') (Plus Digit))))"
    by blast
  also have "\<dots> \<longleftrightarrow>
     (\<exists>sg ds fr. w = sg @ ds @ fr \<and> (sg = [] \<or> sg = ''-'') \<and> ds \<noteq> [] \<and> list_all isDigit ds \<and>
        (fr = [] \<or> (\<exists>fs. fr = CHR ''.'' # fs \<and> fs \<noteq> [] \<and> list_all isDigit fs)))"
    by (simp only: frac_lang plus_digit_iff) (simp add: opt_lang)
  finally show ?thesis .
qed

lemmas strict_eval = parseStrictNumber_def trim_def isWhiteSpace_def strictNumberRe_def Opt_def Plus_def isDigit_def Number_str_def nonDecimalLiteral_def strDecimal_def unsignedDecimal_def exponentPart_def radixVal_def digitValue_def pow10_def radixDigits_def

text \<open>
  Claim C8. \<^verbatim>\<open>parseStrictNumber\<close> returns a value for a number exactly when the number is
  finite (and then that number), and for a string exactly when the trimmed string is in
  the language of \<^verbatim>\<open>^-?\d+(\.\d+)?$\<close>: an optional minus sign, one or more digits, and
  optionally a point followed by one or more digits. Every other input gives \<^verbatim>\<open>null\<close>;
  the function has no branch that throws. \<^verbatim>\<open>"123"\<close> gives 123 and \<^verbatim>\<open>"-4.5"\<close> gives
  -4.5 (the doubles nearest to these values); the empty string, \<^verbatim>\<open>"1e3"\<close>,
  \<^verbatim>\<open>"1,000"\<close> and \<^verbatim>\<open>"123abc"\<close> give \<^verbatim>\<open>null\<close>.
\<close>

theorem parseStrictNumber_strict:
  "(parseStrictNumber rnd v \<noteq> None) =
     (case v of JNum n \<Rightarrow> isFinite n | JStr s \<Rightarrow> trim s \<in> lang strictNumberRe | _ \<Rightarrow> False)
   \<and> (w \<in> lang strictNumberRe) =
       (\<exists>sg ds fr. w = sg @ ds @ fr \<and> (sg = [] \<or> sg = ''-'') \<and> ds \<noteq> [] \<and> list_all isDigit ds \<and>
          (fr = [] \<or> (\<exists>fs. fr = CHR ''.'' # fs \<and> fs \<noteq> [] \<and> list_all isDigit fs)))
   \<and> parseStrictNumber rnd (JNum n) = (if isFinite n then Some n else None)
   \<and> parseStrictNumber rnd (JStr ''123'') = Some (rnd 123)
   \<and> parseStrictNumber rnd (JStr ''-4.5'') = Some (jsneg (rnd (9 / 2)))
   \<and> parseStrictNumber rnd (JStr '''') = None
   \<and> parseStrictNumber rnd (JStr ''1e3'') = None
   \<and> parseStrictNumber rnd (JStr ''1,000'') = None
   \<and> parseStrictNumber rnd (JStr ''123abc'') = None"
proof (intro conjI)
  show "(parseStrictNumber rnd v \<noteq> None) =
     (case v of JNum n \<Rightarrow> isFinite n | JStr s \<Rightarrow> trim s \<in> lang strictNumberRe | _ \<Rightarrow> False)"
    by (cases v) (simp_all add: parseStrictNumber_def test_lang Let_def)
  show "(w \<in> lang strictNumberRe) =
       (\<exists>sg ds fr. w = sg @ ds @ fr \<and> (sg = [] \<or> sg = ''-'') \<and> ds \<noteq> [] \<and> list_all isDigit ds \<and>
          (fr = [] \<or> (\<exists>fs. fr = CHR ''.'' # fs \<and> fs \<noteq> [] \<and> list_all isDigit fs)))"
    by (rule strictNumberRe_lang)
  show "parseStrictNumber rnd (JNum n) = (if isFinite n then Some n else None)"
    by (simp add: parseStrictNumber_def)
  show "parseStrictNumber rnd (JStr ''123'') = Some (rnd 123)"
    by (simp add: strict_eval)
  show "parseStrictNumber rnd (JStr ''-4.5'') = Some (jsneg (rnd (9 / 2)))"
    by (simp add: strict_eval)
  show "parseStrictNumber rnd (JStr '''') = None"
    by (simp add: strict_eval)
  show "parseStrictNumber rnd (JStr ''1e3'') = None"
    by (simp add: strict_eval)
  show "parseStrictNumber rnd (JStr ''1,000'') = None"
    by (simp add: strict_eval)
  show "parseStrictNumber rnd (JStr ''123abc'') = None"
    by (simp add: strict_eval)
qed

section \<open>The prediction payload\<close>

lemma map_the_filter: "map the (filter (\<lambda>v. v \<noteq> None) (map f xs)) = List.map_filter f xs"
  by (induction xs) (auto simp: map_filter_simps split: option.splits)

lemmas category_eval = inferCategory_def toLowerCase_def toLowerChar_def upperChars_def lowerChars_def

text \<open>\<^verbatim>\<open>s.includes(sub)\<close> holds exactly when \<open>sub\<close> occurs in \<open>s\<close>.\<close>

lemma str_includes_iff: "str_includes s sub \<longleftrightarrow> (\<exists>pre suf. s = pre @ sub @ suf)"
proof (induction s)
  case Nil
  then show ?case by auto
next
  case (Cons c cs)
  have "(\<exists>pre suf. c # cs = pre @ sub @ suf) \<longleftrightarrow>
      (\<exists>suf. c # cs = sub @ suf) \<or> (\<exists>pre suf. cs = pre @ sub @ suf)"
  proof
    assume "\<exists>pre suf. c # cs = pre @ sub @ suf"
    then obtain pre suf where e: "c # cs = pre @ sub @ suf" by blast
    show "(\<exists>suf. c # cs = sub @ suf) \<or> (\<exists>pre suf. cs = pre @ sub @ suf)"
    proof (cases pre)
      case Nil
      with e show ?thesis by auto
    next
      case (Cons p ps)
      with e have "cs = ps @ sub @ suf" by simp
      then show ?thesis by blast
    qed
  next
    assume "(\<exists>suf. c # cs = sub @ suf) \<or> (\<exists>pre suf. cs = pre @ sub @ suf)"
    then show "\<exists>pre suf. c # cs = pre @ sub @ suf"
    proof
      assume "\<exists>suf. c # cs = sub @ suf"
      then obtain suf where "c # cs = [] @ sub @ suf" by auto
      then show ?thesis by blast
    next
      assume "\<exists>pre suf. cs = pre @ sub @ suf"
      then obtain pre suf where "cs = pre @ sub @ suf" by blast
      then have "c # cs = (c # pre) @ sub @ suf" by simp
      then show ?thesis by blast
    qed
  qed
  with Cons show ?case by (simp add: prefix_def)
qed

text \<open>
  Claim C9. The payload derived from an analysis has as \<open>current_price\<close> the strict parse
  of the subject's current price, 0 when that fails; as \<open>competitor_prices\<close> the competitor
  prices that pass the strict parse, in order, or the one-element list of \<open>current_price\<close>
  when none passes, so the list is never empty; and as \<open>category\<close> the category inferred
  from the subject's product name: with the name in lower case, \<open>footwear\<close> when
  \<open>shoe\<close> or \<open>sneaker\<close> occurs in it, otherwise \<open>electronics\<close> when \<open>phone\<close> or \<open>mobile\<close>
  occurs, otherwise \<open>apparel\<close> when \<open>shirt\<close> occurs, otherwise \<open>general\<close>. So
  \<open>Trail Shoe\<close> and \<open>RUNNING SNEAKERS\<close> are footwear, \<open>iPhone 15\<close> and
  \<open>Mobile Charger\<close> electronics, \<open>Linen Shirt\<close> and \<open>T-SHIRT\<close> apparel; of two
  keywords of different categories the earlier category wins; \<open>Desk Lamp\<close> and the empty
  name are general. Of the competitor prices 480, \<open>"n/a"\<close>, \<open>" 12.5 "\<close>, NaN, \<open>"1e3"\<close>,
  \<open>null\<close> and \<open>"-3"\<close> the payload keeps 480, 12.5 and -3; when the only competitor price
  is \<open>"n/a"\<close> and the subject's price is \<open>"19.99"\<close>, both fields hold 19.99. With no
  competitor, a price that does not parse and a name without keyword the payload is
  \<open>{current_price: 0, competitor_prices: [0], category: "general"}\<close>.
\<close>

theorem analysisToPredictPayload_fields:
  "current_price (analysisToPredictPayload rnd a) =
     (case parseStrictNumber rnd (u_currentPrice (userProduct a)) of None \<Rightarrow> Num 0 | Some p \<Rightarrow> p)
   \<and> competitor_prices (analysisToPredictPayload rnd a) =
       (let survivors = List.map_filter (\<lambda>c. parseStrictNumber rnd (c_price c))
                          (case competitors a of None \<Rightarrow> [] | Some cs \<Rightarrow> cs)
        in if survivors = [] then [current_price (analysisToPredictPayload rnd a)] else survivors)
   \<and> competitor_prices (analysisToPredictPayload rnd a) \<noteq> []
   \<and> category (analysisToPredictPayload rnd a) = inferCategory (u_productName (userProduct a))
   \<and> category (analysisToPredictPayload rnd a) =
       (let has = (\<lambda>keyword. \<exists>pre suf. toLowerCase (u_productName (userProduct a)) = pre @ keyword @ suf)
        in if has ''shoe'' \<or> has ''sneaker'' then ''footwear''
           else if has ''phone'' \<or> has ''mobile'' then ''electronics''
           else if has ''shirt'' \<or> has ''t-shirt'' then ''apparel''
           else ''general'')
   \<and> toLowerCase ''Trail SHOE 42-x'' = ''trail shoe 42-x''
   \<and> category (analysisToPredictPayload rnd (sampleAnalysis ''Trail Shoe'' cs)) = ''footwear''
   \<and> category (analysisToPredictPayload rnd (sampleAnalysis ''RUNNING SNEAKERS'' cs)) = ''footwear''
   \<and> category (analysisToPredictPayload rnd (sampleAnalysis ''iPhone 15'' cs)) = ''electronics''
   \<and> category (analysisToPredictPayload rnd (sampleAnalysis ''Mobile Charger'' cs)) = ''electronics''
   \<and> category (analysisToPredictPayload rnd (sampleAnalysis ''Linen Shirt'' cs)) = ''apparel''
   \<and> category (analysisToPredictPayload rnd (sampleAnalysis ''T-SHIRT'' cs)) = ''apparel''
   \<and> category (analysisToPredictPayload rnd (sampleAnalysis ''Phone Shoe Holder'' cs)) = ''footwear''
   \<and> category (analysisToPredictPayload rnd (sampleAnalysis ''Shirt for Phone'' cs)) = ''electronics''
   \<and> category (analysisToPredictPayload rnd (sampleAnalysis ''Desk Lamp'' cs)) = ''general''
   \<and> category (analysisToPredictPayload rnd (sampleAnalysis '''' cs)) = ''general''
   \<and> analysisToPredictPayload rnd
        (sampleAnalysis ''Trail Shoe''
           [sampleCompetitor ''A'',
            (sampleCompetitor ''B'')\<lparr>c_price := JStr ''n/a''\<rparr>,
            (sampleCompetitor ''C'')\<lparr>c_price := JStr '' 12.5 ''\<rparr>,
            (sampleCompetitor ''D'')\<lparr>c_price := JNum NaN\<rparr>,
            (sampleCompetitor ''E'')\<lparr>c_price := JStr ''1e3''\<rparr>,
            (sampleCompetitor ''F'')\<lparr>c_price := JNull\<rparr>,
            (sampleCompetitor ''G'')\<lparr>c_price := JStr ''-3''\<rparr>]) =
       \<lparr> current_price = Num 520, competitor_prices = [Num 480, rnd (25 / 2), jsneg (rnd 3)],
         category = ''footwear'' \<rparr>
   \<and> analysisToPredictPayload rnd
        ((sampleAnalysis ''Phone Case'' [(sampleCompetitor ''B'')\<lparr>c_price := JStr ''n/a''\<rparr>])
           \<lparr>userProduct := (userProduct (sampleAnalysis ''Phone Case'' []))\<lparr>u_currentPrice := JStr ''19.99''\<rparr>\<rparr>) =
       \<lparr> current_price = rnd (1999 / 100), competitor_prices = [rnd (1999 / 100)],
         category = ''electronics'' \<rparr>
   \<and> analysisToPredictPayload rnd
        (a\<lparr>competitors := Some [],
           userProduct := (userProduct a)\<lparr>u_currentPrice := JStr ''N/A'', u_productName := ''Desk Lamp''\<rparr>\<rparr>) =
       \<lparr> current_price = Num 0, competitor_prices = [Num 0], category = ''general'' \<rparr>
   \<and> analysisToPredictPayload rnd
        (a\<lparr>competitors := None,
           userProduct := (userProduct a)\<lparr>u_currentPrice := JNull, u_productName := ''Desk Lamp''\<rparr>\<rparr>) =
       \<lparr> current_price = Num 0, competitor_prices = [Num 0], category = ''general'' \<rparr>"
proof (intro conjI)
  have name: "\<And>name. category (analysisToPredictPayload rnd (sampleAnalysis name cs)) = inferCategory name"
    by (simp add: analysisToPredictPayload_def Let_def sampleAnalysis_def)
  have p1: "parseStrictNumber rnd (JStr '' 12.5 '') = Some (rnd (25 / 2))"
    by (simp add: strict_eval)
  have p2: "parseStrictNumber rnd (JStr ''n/a'') = None"
    by (simp add: strict_eval)
  have p3: "parseStrictNumber rnd (JStr ''1e3'') = None"
    by (simp add: strict_eval)
  have p4: "parseStrictNumber rnd (JStr ''-3'') = Some (jsneg (rnd 3))"
    by (simp add: strict_eval)
  have p5: "parseStrictNumber rnd (JStr ''19.99'') = Some (rnd (1999 / 100))"
    by (simp add: strict_eval)
  have p6: "\<And>q. parseStrictNumber rnd (JNum (Num q)) = Some (Num q)"
    by (simp add: parseStrictNumber_def)
  have p7: "parseStrictNumber rnd (JNum NaN) = None"
    by (simp add: parseStrictNumber_def)
  have p8: "parseStrictNumber rnd JNull = None"
    by (simp add: parseStrictNumber_def)
  have shoe: "inferCategory ''Trail Shoe'' = ''footwear''"
    by (simp add: category_eval)
  have lamp: "inferCategory ''Desk Lamp'' = ''general''"
    by (simp add: category_eval)
  have na: "parseStrictNumber rnd (JStr ''N/A'') = None"
    by (simp add: strict_eval)
  show "current_price (analysisToPredictPayload rnd a) =
     (case parseStrictNumber rnd (u_currentPrice (userProduct a)) of None \<Rightarrow> Num 0 | Some p \<Rightarrow> p)"
    by (simp add: analysisToPredictPayload_def Let_def)
  show "competitor_prices (analysisToPredictPayload rnd a) =
       (let survivors = List.map_filter (\<lambda>c. parseStrictNumber rnd (c_price c))
                          (case competitors a of None \<Rightarrow> [] | Some cs \<Rightarrow> cs)
        in if survivors = [] then [current_price (analysisToPredictPayload rnd a)] else survivors)"
    unfolding analysisToPredictPayload_def Let_def map_the_filter by simp
  show "competitor_prices (analysisToPredictPayload rnd a) \<noteq> []"
    by (simp add: analysisToPredictPayload_def Let_def)
  show "category (analysisToPredictPayload rnd a) = inferCategory (u_productName (userProduct a))"
    by (simp add: analysisToPredictPayload_def Let_def)
  show "category (analysisToPredictPayload rnd a) =
       (let has = (\<lambda>keyword. \<exists>pre suf. toLowerCase (u_productName (userProduct a)) = pre @ keyword @ suf)
        in if has ''shoe'' \<or> has ''sneaker'' then ''footwear''
           else if has ''phone'' \<or> has ''mobile'' then ''electronics''
           else if has ''shirt'' \<or> has ''t-shirt'' then ''apparel''
           else ''general'')"
    by (simp add: analysisToPredictPayload_def Let_def inferCategory_def str_includes_iff)
  show "toLowerCase ''Trail SHOE 42-x'' = ''trail shoe 42-x''"
    by (simp add: category_eval)
  show "category (analysisToPredictPayload rnd (sampleAnalysis ''Trail Shoe'' cs)) = ''footwear''"
    by (simp add: name category_eval)
  show "category (analysisToPredictPayload rnd (sampleAnalysis ''RUNNING SNEAKERS'' cs)) = ''footwear''"
    by (simp add: name category_eval)
  show "category (analysisToPredictPayload rnd (sampleAnalysis ''iPhone 15'' cs)) = ''electronics''"
    by (simp add: name category_eval)
  show "category (analysisToPredictPayload rnd (sampleAnalysis ''Mobile Charger'' cs)) = ''electronics''"
    by (simp add: name category_eval)
  show "category (analysisToPredictPayload rnd (sampleAnalysis ''Linen Shirt'' cs)) = ''apparel''"
    by (simp add: name category_eval)
  show "category (analysisToPredictPayload rnd (sampleAnalysis ''T-SHIRT'' cs)) = ''apparel''"
    by (simp add: name category_eval)
  show "category (analysisToPredictPayload rnd (sampleAnalysis ''Phone Shoe Holder'' cs)) = ''footwear''"
    by (simp add: name category_eval)
  show "category (analysisToPredictPayload rnd (sampleAnalysis ''Shirt for Phone'' cs)) = ''electronics''"
    by (simp add: name category_eval)
  show "category (analysisToPredictPayload rnd (sampleAnalysis ''Desk Lamp'' cs)) = ''general''"
    by (simp add: name category_eval)
  show "category (analysisToPredictPayload rnd (sampleAnalysis '''' cs)) = ''general''"
    by (simp add: name category_eval)
  show "analysisToPredictPayload rnd
        (sampleAnalysis ''Trail Shoe''
           [sampleCompetitor ''A'',
            (sampleCompetitor ''B'')\<lparr>c_price := JStr ''n/a''\<rparr>,
            (sampleCompetitor ''C'')\<lparr>c_price := JStr '' 12.5 ''\<rparr>,
            (sampleCompetitor ''D'')\<lparr>c_price := JNum NaN\<rparr>,
            (sampleCompetitor ''E'')\<lparr>c_price := JStr ''1e3''\<rparr>,
            (sampleCompetitor ''F'')\<lparr>c_price := JNull\<rparr>,
            (sampleCompetitor ''G'')\<lparr>c_price := JStr ''-3''\<rparr>]) =
       \<lparr> current_price = Num 520, competitor_prices = [Num 480, rnd (25 / 2), jsneg (rnd 3)],
         category = ''footwear'' \<rparr>"
    unfolding analysisToPredictPayload_def Let_def map_the_filter
    by (simp add: sampleAnalysis_def sampleCompetitor_def p1 p2 p3 p4 p6 p7 p8 shoe)
  show "analysisToPredictPayload rnd
        ((sampleAnalysis ''Phone Case'' [(sampleCompetitor ''B'')\<lparr>c_price := JStr ''n/a''\<rparr>])
           \<lparr>userProduct := (userProduct (sampleAnalysis ''Phone Case'' []))\<lparr>u_currentPrice := JStr ''19.99''\<rparr>\<rparr>) =
       \<lparr> current_price = rnd (1999 / 100), competitor_prices = [rnd (1999 / 100)],
         category = ''electronics'' \<rparr>"
    unfolding analysisToPredictPayload_def Let_def map_the_filter
    by (simp add: sampleAnalysis_def sampleCompetitor_def p2 p5 category_eval)
  show "analysisToPredictPayload rnd
        (a\<lparr>competitors := Some [],
           userProduct := (userProduct a)\<lparr>u_currentPrice := JStr ''N/A'', u_productName := ''Desk Lamp''\<rparr>\<rparr>) =
       \<lparr> current_price = Num 0, competitor_prices = [Num 0], category = ''general'' \<rparr>"
    by (simp add: analysisToPredictPayload_def Let_def lamp na)
  show "analysisToPredictPayload rnd
        (a\<lparr>competitors := None,
           userProduct := (userProduct a)\<lparr>u_currentPrice := JNull, u_productName := ''Desk Lamp''\<rparr>\<rparr>) =
       \<lparr> current_price = Num 0, competitor_prices = [Num 0], category = ''general'' \<rparr>"
    by (simp add: analysisToPredictPayload_def Let_def lamp p8)
qed

section \<open>Prediction refinement\<close>

lemma applyPredictions_length: "length (applyPredictions rnd ps i as) = length as"
  by (induction ps arbitrary: i as) auto

lemma applyPredictions_price:
  "k < length as \<Longrightarrow>
   suggestedPrice (applyPredictions rnd ps i as ! k) =
     (if i \<le> k \<and> k - i < length ps \<and> Number_isFinite (ps ! (k - i))
      then JNum (Math_round (Number_js rnd (ps ! (k - i))))
      else suggestedPrice (as ! k))"
proof (induction ps arbitrary: i as)
  case Nil
  then show ?case by simp
next
  case (Cons p ps)
  show ?case
  proof (cases "Number_isFinite p \<and> \<not> i < length as")
    case True
    with Cons.prems show ?thesis by simp
  next
    case False
    define as' where "as' = (if Number_isFinite p
       then as[i := (as ! i)\<lparr>suggestedPrice := JNum (Math_round (Number_js rnd p))\<rparr>] else as)"
    have step: "applyPredictions rnd (p # ps) i as = applyPredictions rnd ps (Suc i) as'"
      using False by (simp add: as'_def)
    have len: "k < length as'"
      using Cons.prems by (simp add: as'_def)
    note ih = Cons.IH [OF len, of "Suc i"]
    show ?thesis
    proof (cases "k = i")
      case True
      with ih Cons.prems show ?thesis
        unfolding step by (cases "Number_isFinite p") (simp_all add: as'_def)
    next
      case False
      then have old: "suggestedPrice (as' ! k) = suggestedPrice (as ! k)"
        by (simp add: as'_def)
      show ?thesis
      proof (cases "i < k")
        case True
        then obtain d where d: "k - i = Suc d" "k - Suc i = d"
          by (cases "k - i") auto
        with ih old True show ?thesis unfolding step by simp
      next
        case False
        with \<open>k \<noteq> i\<close> have "k < i" by simp
        with ih old show ?thesis unfolding step by simp
      qed
    qed
  qed
qed

lemma suggestedPrice_self_update: "\<exists>x. (a::ProductAnalysis) = a\<lparr>suggestedPrice := x\<rparr>"
  by (rule exI [of _ "suggestedPrice a"]) simp

lemma applyPredictions_frame:
  "k < length as \<Longrightarrow> \<exists>x. applyPredictions rnd ps i as ! k = (as ! k)\<lparr>suggestedPrice := x\<rparr>"
proof (induction ps arbitrary: i as)
  case Nil
  show ?case using suggestedPrice_self_update by simp
next
  case (Cons p ps)
  show ?case
  proof (cases "Number_isFinite p \<and> \<not> i < length as")
    case True
    then show ?thesis using suggestedPrice_self_update by simp
  next
    case False
    define as' where "as' = (if Number_isFinite p
       then as[i := (as ! i)\<lparr>suggestedPrice := JNum (Math_round (Number_js rnd p))\<rparr>] else as)"
    have step: "applyPredictions rnd (p # ps) i as = applyPredictions rnd ps (Suc i) as'"
      using False by (simp add: as'_def)
    have len: "k < length as'"
      using Cons.prems by (simp add: as'_def)
    from Cons.IH [OF len, of "Suc i"] obtain x where
      x: "applyPredictions rnd ps (Suc i) as' ! k = (as' ! k)\<lparr>suggestedPrice := x\<rparr>" by blast
    have "\<exists>y. as' ! k = (as ! k)\<lparr>suggestedPrice := y\<rparr>"
    proof (cases "Number_isFinite p \<and> k = i")
      case True
      with Cons.prems show ?thesis by (auto simp: as'_def)
    next
      case False
      then have "as' ! k = as ! k" by (auto simp: as'_def)
      then show ?thesis using suggestedPrice_self_update by simp
    qed
    then obtain y where "as' ! k = (as ! k)\<lparr>suggestedPrice := y\<rparr>" by blast
    with x have "applyPredictions rnd ps (Suc i) as' ! k = (as ! k)\<lparr>suggestedPrice := x\<rparr>"
      by simp
    then show ?thesis unfolding step by blast
  qed
qed

lemma refineBatch_length: "length (refineBatch rnd predictBatch' as) = length as"
  by (simp add: refineBatch_def applyPredictions_length split: sum.splits)

text \<open>
  What \<^verbatim>\<open>handleAnalysis\<close> does with each outcome of the two prediction functions, once the
  AI analysis has produced an analysis. A returned finite number \<open>v\<close> overwrites
  \<open>suggestedPrice\<close> with \<open>v\<close> rounded to the nearest whole number (a tie going up). A call
  that throws leaves it as it was, and so does a returned value that is not a finite
  number. In every case the state is the success state. In batch mode the analysis at
  position \<open>k\<close> takes the prediction at position \<open>k\<close>.
\<close>

lemma refinement_of_results:
  "(\<forall>a. analyzeSingleProduct ai url comps = Inr a \<longrightarrow>
      (\<forall>v. predictPrice' (analysisToPredictPayload rnd a) = Inr (Num v) \<longrightarrow>
          handleAnalysis rnd ai predictPrice' predictBatch' (UrlInput url comps) =
            \<lparr> status = Success,
              data = Some [a\<lparr>suggestedPrice := JNum (Num (of_int \<lfloor>v + 1 / 2\<rfloor>))\<rparr>],
              error = None \<rparr>) \<and>
      (\<forall>n. predictPrice' (analysisToPredictPayload rnd a) = Inr n \<and> \<not> isFinite n \<longrightarrow>
          handleAnalysis rnd ai predictPrice' predictBatch' (UrlInput url comps) =
            \<lparr> status = Success, data = Some [a], error = None \<rparr>) \<and>
      (\<forall>e. predictPrice' (analysisToPredictPayload rnd a) = Inl e \<longrightarrow>
          handleAnalysis rnd ai predictPrice' predictBatch' (UrlInput url comps) =
            \<lparr> status = Success, data = Some [a], error = None \<rparr>))
   \<and> (\<forall>as. analyzeBatchProducts ai products = Inr as \<longrightarrow>
      (\<forall>e. predictBatch' (analysesToPredictPayloads rnd as) = Inl e \<longrightarrow>
          handleAnalysis rnd ai predictPrice' predictBatch' (CsvInput products) =
            \<lparr> status = Success, data = Some as, error = None \<rparr>) \<and>
      (\<forall>ps. predictBatch' (analysesToPredictPayloads rnd as) = Inr ps \<longrightarrow>
          (\<exists>ds. handleAnalysis rnd ai predictPrice' predictBatch' (CsvInput products) =
                  \<lparr> status = Success, data = Some ds, error = None \<rparr> \<and>
                length ds = length as \<and>
                (\<forall>k<length as.
                   (\<forall>v. k < length ps \<and> ps ! k = JNum (Num v) \<longrightarrow>
                      suggestedPrice (ds ! k) = JNum (Num (of_int \<lfloor>v + 1 / 2\<rfloor>))) \<and>
                   (length ps \<le> k \<or> \<not> Number_isFinite (ps ! k) \<longrightarrow>
                      suggestedPrice (ds ! k) = suggestedPrice (as ! k))))))"
proof (intro conjI allI impI)
  fix a v
  assume "analyzeSingleProduct ai url comps = Inr a"
    and "predictPrice' (analysisToPredictPayload rnd a) = Inr (Num v)"
  then show "handleAnalysis rnd ai predictPrice' predictBatch' (UrlInput url comps) =
      \<lparr> status = Success,
        data = Some [a\<lparr>suggestedPrice := JNum (Num (of_int \<lfloor>v + 1 / 2\<rfloor>))\<rparr>],
        error = None \<rparr>"
    by (simp add: handleAnalysis_def refineSingle_def)
next
  fix a n
  assume "analyzeSingleProduct ai url comps = Inr a"
    and "predictPrice' (analysisToPredictPayload rnd a) = Inr n \<and> \<not> isFinite n"
  then show "handleAnalysis rnd ai predictPrice' predictBatch' (UrlInput url comps) =
      \<lparr> status = Success, data = Some [a], error = None \<rparr>"
    by (simp add: handleAnalysis_def refineSingle_def)
next
  fix a e
  assume "analyzeSingleProduct ai url comps = Inr a"
    and "predictPrice' (analysisToPredictPayload rnd a) = Inl e"
  then show "handleAnalysis rnd ai predictPrice' predictBatch' (UrlInput url comps) =
      \<lparr> status = Success, data = Some [a], error = None \<rparr>"
    by (simp add: handleAnalysis_def refineSingle_def)
next
  fix as e
  assume "analyzeBatchProducts ai products = Inr as"
    and "predictBatch' (analysesToPredictPayloads rnd as) = Inl e"
  then show "handleAnalysis rnd ai predictPrice' predictBatch' (CsvInput products) =
      \<lparr> status = Success, data = Some as, error = None \<rparr>"
    by (simp add: handleAnalysis_def refineBatch_def)
next
  fix as ps
  assume batch: "analyzeBatchProducts ai products = Inr as"
    and preds: "predictBatch' (analysesToPredictPayloads rnd as) = Inr ps"
  let ?ds = "applyPredictions rnd ps 0 as"
  have state: "handleAnalysis rnd ai predictPrice' predictBatch' (CsvInput products) =
      \<lparr> status = Success, data = Some ?ds, error = None \<rparr>"
    using batch preds by (simp add: handleAnalysis_def refineBatch_def)
  have len: "length ?ds = length as"
    by (rule applyPredictions_length)
  have prices: "\<forall>k<length as.
      (\<forall>v. k < length ps \<and> ps ! k = JNum (Num v) \<longrightarrow>
         suggestedPrice (?ds ! k) = JNum (Num (of_int \<lfloor>v + 1 / 2\<rfloor>))) \<and>
      (length ps \<le> k \<or> \<not> Number_isFinite (ps ! k) \<longrightarrow>
         suggestedPrice (?ds ! k) = suggestedPrice (as ! k))"
  proof (intro allI impI conjI)
    fix k v
    assume "k < length as" and "k < length ps \<and> ps ! k = JNum (Num v)"
    then show "suggestedPrice (?ds ! k) = JNum (Num (of_int \<lfloor>v + 1 / 2\<rfloor>))"
      by (simp add: applyPredictions_price)
  next
    fix k
    assume "k < length as" and "length ps \<le> k \<or> \<not> Number_isFinite (ps ! k)"
    then show "suggestedPrice (?ds ! k) = suggestedPrice (as ! k)"
      by (auto simp: applyPredictions_price)
  qed
  from state len prices
  show "\<exists>ds. handleAnalysis rnd ai predictPrice' predictBatch' (CsvInput products) =
                  \<lparr> status = Success, data = Some ds, error = None \<rparr> \<and>
                length ds = length as \<and>
                (\<forall>k<length as.
                   (\<forall>v. k < length ps \<and> ps ! k = JNum (Num v) \<longrightarrow>
                      suggestedPrice (ds ! k) = JNum (Num (of_int \<lfloor>v + 1 / 2\<rfloor>))) \<and>
                   (length ps \<le> k \<or> \<not> Number_isFinite (ps ! k) \<longrightarrow>
                      suggestedPrice (ds ! k) = suggestedPrice (as ! k)))"
    by blast
qed

lemma sample_single:
  "analyzeSingleProduct sampleAi ''https://shop.example/trail-shoe'' [] =
     Inr (sampleAnalysis ''https://shop.example/trail-shoe'' [])"
  by (simp add: analyzeSingleProduct_def sampleAi_def)

lemma sample_batch:
  "analyzeBatchProducts sampleAi [sampleProduct ''Trail Shoe'', sampleProduct ''Phone Case'', sampleProduct ''Linen Shirt''] =
     Inr [sampleAnalysis ''Trail Shoe'' [], sampleAnalysis ''Linen Shirt'' []]"
  by (simp add: analyzeBatchProducts_def settledResults_def upt_rec sampleAi_def userIdentifier_def
      sampleProduct_def)

text \<open>
  Replies that \<^verbatim>\<open>predictPrice\<close> and \<^verbatim>\<open>predictBatch\<close> turn into a result, for every analysis:
  a \<^verbatim>\<open>null\<close> price counts as the number 0 in single mode and as no prediction in batch
  mode, and a reply longer than the batch is applied as far as there are analyses.
\<close>

lemma refineSingle_null_reply:
  "refineSingle rnd (predictPrice rnd (\<lambda>payload. Response 200 (Fields [''predicted_price'' \<mapsto> Plain JNull]))) a =
     a\<lparr>suggestedPrice := JNum (Num 0)\<rparr>"
  by (simp add: refineSingle_def predictPrice_def res_ok_def floor_eq_iff)

lemma refineBatch_null_entry:
  "refineBatch rnd (predictBatch (\<lambda>payloads. Response 200 (Fields [''predicted_prices'' \<mapsto> Items [JNull]]))) [a] = [a]"
  by (simp add: refineBatch_def predictBatch_def res_ok_def)

lemma refineBatch_overlong_reply:
  "refineBatch rnd (predictBatch (\<lambda>payloads. Response 200
       (Fields [''predicted_prices'' \<mapsto> Items [JNum (Num 410), JNum (Num 420), JNum (Num 430)]]))) [a, b] =
     [a\<lparr>suggestedPrice := JNum (Num 410)\<rparr>, b\<lparr>suggestedPrice := JNum (Num 420)\<rparr>]"
  by (simp add: refineBatch_def predictBatch_def res_ok_def floor_eq_iff)

text \<open>
  Claim C1. The refinement at concrete replies of the prediction service, for analyses whose
  AI-derived \<open>suggestedPrice\<close> is 500. A request that cannot be sent and a reply 503
  with the detail \<^verbatim>\<open>Model not trained\<close> leave 500 in place, and a reply 450.7 gives 451. A
  reply 200 whose \<^verbatim>\<open>predicted_price\<close> is \<^verbatim>\<open>null\<close> is a malformed response, yet
  \<^verbatim>\<open>predictPrice\<close> returns \<^verbatim>\<open>Number(null)\<close>, which is the finite number 0, and 500 is
  overwritten with 0. The batch branch tests the entry of the reply itself and keeps 500
  for a \<^verbatim>\<open>null\<close> entry. A batch reply with more finite predictions than there are
  analyses overwrites every price and then throws, so the \<^verbatim>\<open>catch\<close> that logs that the
  AI's suggestions are used runs with the predicted prices in place.
\<close>

theorem prediction_refinement_malformed_reply:
  "suggestedPrice (sampleAnalysis ''https://shop.example/trail-shoe'' []) = JNum (Num 500)
   \<and> handleAnalysis Num sampleAi
         (predictPrice Num (\<lambda>payload. Rejected ''Failed to fetch''))
         (predictBatch (\<lambda>payloads. Rejected ''Failed to fetch''))
         (UrlInput ''https://shop.example/trail-shoe'' []) =
       \<lparr> status = Success, data = Some [sampleAnalysis ''https://shop.example/trail-shoe'' []], error = None \<rparr>
   \<and> handleAnalysis Num sampleAi
         (predictPrice Num (\<lambda>payload. Response 503 (Fields [''detail'' \<mapsto> Plain (JStr ''Model not trained'')])))
         (predictBatch (\<lambda>payloads. Rejected ''Failed to fetch''))
         (UrlInput ''https://shop.example/trail-shoe'' []) =
       \<lparr> status = Success, data = Some [sampleAnalysis ''https://shop.example/trail-shoe'' []], error = None \<rparr>
   \<and> handleAnalysis Num sampleAi
         (predictPrice Num (\<lambda>payload. Response 200 (Fields [''predicted_price'' \<mapsto> Plain (JNum (Num (4507 / 10)))])))
         (predictBatch (\<lambda>payloads. Rejected ''Failed to fetch''))
         (UrlInput ''https://shop.example/trail-shoe'' []) =
       \<lparr> status = Success,
         data = Some [(sampleAnalysis ''https://shop.example/trail-shoe'' [])\<lparr>suggestedPrice := JNum (Num 451)\<rparr>],
         error = None \<rparr>
   \<and> handleAnalysis Num sampleAi
         (predictPrice Num (\<lambda>payload. Response 200 (Fields [''predicted_price'' \<mapsto> Plain JNull])))
         (predictBatch (\<lambda>payloads. Rejected ''Failed to fetch''))
         (UrlInput ''https://shop.example/trail-shoe'' []) =
       \<lparr> status = Success,
         data = Some [(sampleAnalysis ''https://shop.example/trail-shoe'' [])\<lparr>suggestedPrice := JNum (Num 0)\<rparr>],
         error = None \<rparr>
   \<and> handleAnalysis Num sampleAi
         (predictPrice Num (\<lambda>payload. Rejected ''Failed to fetch''))
         (predictBatch (\<lambda>payloads. Response 200
            (Fields [''predicted_prices'' \<mapsto> Items [JNull, JNum (Num (4507 / 10))]])))
         (CsvInput [sampleProduct ''Trail Shoe'', sampleProduct ''Phone Case'', sampleProduct ''Linen Shirt'']) =
       \<lparr> status = Success,
         data = Some [sampleAnalysis ''Trail Shoe'' [],
                      (sampleAnalysis ''Linen Shirt'' [])\<lparr>suggestedPrice := JNum (Num 451)\<rparr>],
         error = None \<rparr>
   \<and> handleAnalysis Num sampleAi
         (predictPrice Num (\<lambda>payload. Rejected ''Failed to fetch''))
         (predictBatch (\<lambda>payloads. Response 200
            (Fields [''predicted_prices'' \<mapsto> Items [JNum (Num 410), JNum (Num 420), JNum (Num 430)]])))
         (CsvInput [sampleProduct ''Trail Shoe'', sampleProduct ''Phone Case'', sampleProduct ''Linen Shirt'']) =
       \<lparr> status = Success,
         data = Some [(sampleAnalysis ''Trail Shoe'' [])\<lparr>suggestedPrice := JNum (Num 410)\<rparr>,
                      (sampleAnalysis ''Linen Shirt'' [])\<lparr>suggestedPrice := JNum (Num 420)\<rparr>],
         error = None \<rparr>
   \<and> applyPredictionsThrows [JNum (Num 410), JNum (Num 420), JNum (Num 430)] 0
         (length [sampleAnalysis ''Trail Shoe'' [], sampleAnalysis ''Linen Shirt'' []])"
proof -
  let ?url = "''https://shop.example/trail-shoe''"
  let ?products = "[sampleProduct ''Trail Shoe'', sampleProduct ''Phone Case'', sampleProduct ''Linen Shirt'']"
  let ?down = "predictBatch (\<lambda>payloads. Rejected ''Failed to fetch'')"
  have round: "Math_round (Num (4507 / 10)) = Num 451"
    by (simp add: floor_eq_iff)
  have price: "suggestedPrice (sampleAnalysis ?url []) = JNum (Num 500)"
    by (simp add: sampleAnalysis_def)
  have rejected: "handleAnalysis Num sampleAi (predictPrice Num (\<lambda>payload. Rejected ''Failed to fetch'')) ?down
      (UrlInput ?url []) =
       \<lparr> status = Success, data = Some [sampleAnalysis ?url []], error = None \<rparr>"
    by (simp add: handleAnalysis_def sample_single refineSingle_def predictPrice_def)
  have untrained: "handleAnalysis Num sampleAi
         (predictPrice Num (\<lambda>payload. Response 503 (Fields [''detail'' \<mapsto> Plain (JStr ''Model not trained'')])))
         ?down (UrlInput ?url []) =
       \<lparr> status = Success, data = Some [sampleAnalysis ?url []], error = None \<rparr>"
    by (simp add: handleAnalysis_def sample_single refineSingle_def predictPrice_def res_ok_def)
  have valid: "handleAnalysis Num sampleAi
         (predictPrice Num (\<lambda>payload. Response 200 (Fields [''predicted_price'' \<mapsto> Plain (JNum (Num (4507 / 10)))])))
         ?down (UrlInput ?url []) =
       \<lparr> status = Success,
         data = Some [(sampleAnalysis ?url [])\<lparr>suggestedPrice := JNum (Num 451)\<rparr>],
         error = None \<rparr>"
    by (simp add: handleAnalysis_def sample_single refineSingle_def predictPrice_def res_ok_def
        floor_eq_iff)
  have null: "handleAnalysis Num sampleAi
         (predictPrice Num (\<lambda>payload. Response 200 (Fields [''predicted_price'' \<mapsto> Plain JNull])))
         ?down (UrlInput ?url []) =
       \<lparr> status = Success,
         data = Some [(sampleAnalysis ?url [])\<lparr>suggestedPrice := JNum (Num 0)\<rparr>],
         error = None \<rparr>"
    by (simp add: handleAnalysis_def sample_single refineSingle_null_reply)
  have entry: "handleAnalysis Num sampleAi
         (predictPrice Num (\<lambda>payload. Rejected ''Failed to fetch''))
         (predictBatch (\<lambda>payloads. Response 200
            (Fields [''predicted_prices'' \<mapsto> Items [JNull, JNum (Num (4507 / 10))]])))
         (CsvInput ?products) =
       \<lparr> status = Success,
         data = Some [sampleAnalysis ''Trail Shoe'' [],
                      (sampleAnalysis ''Linen Shirt'' [])\<lparr>suggestedPrice := JNum (Num 451)\<rparr>],
         error = None \<rparr>"
    by (simp add: handleAnalysis_def sample_batch refineBatch_def predictBatch_def res_ok_def
        floor_eq_iff)
  have overlong: "handleAnalysis Num sampleAi
         (predictPrice Num (\<lambda>payload. Rejected ''Failed to fetch''))
         (predictBatch (\<lambda>payloads. Response 200
            (Fields [''predicted_prices'' \<mapsto> Items [JNum (Num 410), JNum (Num 420), JNum (Num 430)]])))
         (CsvInput ?products) =
       \<lparr> status = Success,
         data = Some [(sampleAnalysis ''Trail Shoe'' [])\<lparr>suggestedPrice := JNum (Num 410)\<rparr>,
                      (sampleAnalysis ''Linen Shirt'' [])\<lparr>suggestedPrice := JNum (Num 420)\<rparr>],
         error = None \<rparr>"
    by (simp add: handleAnalysis_def sample_batch refineBatch_overlong_reply)
  have throws: "applyPredictionsThrows [JNum (Num 410), JNum (Num 420), JNum (Num 430)] 0
         (length [sampleAnalysis ''Trail Shoe'' [], sampleAnalysis ''Linen Shirt'' []])"
    by simp
  from price rejected untrained valid null entry overlong throws show ?thesis
    by (intro conjI)
qed

text \<open>
  Claim C10. The refinement changes nothing but \<open>suggestedPrice\<close>. In single mode the
  analysis handed to the caller is the one the AI produced with at most that field
  replaced; in batch mode the list handed to the caller has the length of the list the AI
  produced, and each element is the AI's element at the same position with at most that
  field replaced, so \<open>userProduct\<close>, \<open>competitors\<close>, \<open>reasoning\<close>, \<open>marketSummary\<close>,
  \<open>historicalPriceAnalysis\<close> and \<open>sources\<close> are the AI's. This holds whatever the
  prediction calls return, failure included.
\<close>

theorem refinement_frame:
  "(\<forall>a. analyzeSingleProduct ai url comps = Inr a \<longrightarrow>
      (\<exists>d. handleAnalysis rnd ai predictPrice' predictBatch' (UrlInput url comps) =
              \<lparr> status = Success, data = Some [d], error = None \<rparr> \<and>
            (\<exists>p. d = a\<lparr>suggestedPrice := p\<rparr>) \<and>
            userProduct d = userProduct a \<and> competitors d = competitors a \<and>
            reasoning d = reasoning a \<and> marketSummary d = marketSummary a \<and>
            historicalPriceAnalysis d = historicalPriceAnalysis a \<and> sources d = sources a))
   \<and> (\<forall>as. analyzeBatchProducts ai products = Inr as \<longrightarrow>
      (\<exists>ds. handleAnalysis rnd ai predictPrice' predictBatch' (CsvInput products) =
               \<lparr> status = Success, data = Some ds, error = None \<rparr> \<and>
             length ds = length as \<and>
             (\<forall>k<length as.
                (\<exists>p. ds ! k = (as ! k)\<lparr>suggestedPrice := p\<rparr>) \<and>
                userProduct (ds ! k) = userProduct (as ! k) \<and>
                competitors (ds ! k) = competitors (as ! k) \<and>
                reasoning (ds ! k) = reasoning (as ! k) \<and>
                marketSummary (ds ! k) = marketSummary (as ! k) \<and>
                historicalPriceAnalysis (ds ! k) = historicalPriceAnalysis (as ! k) \<and>
                sources (ds ! k) = sources (as ! k))))"
proof (intro conjI allI impI)
  fix a
  assume single: "analyzeSingleProduct ai url comps = Inr a"
  let ?d = "refineSingle rnd predictPrice' a"
  have state: "handleAnalysis rnd ai predictPrice' predictBatch' (UrlInput url comps) =
      \<lparr> status = Success, data = Some [?d], error = None \<rparr>"
    using single by (simp add: handleAnalysis_def)
  have upd: "\<exists>p. ?d = a\<lparr>suggestedPrice := p\<rparr>"
    using suggestedPrice_self_update [of a]
    by (auto simp: refineSingle_def split: sum.splits)
  then obtain p where p: "?d = a\<lparr>suggestedPrice := p\<rparr>" by blast
  have fields: "userProduct ?d = userProduct a \<and> competitors ?d = competitors a \<and>
      reasoning ?d = reasoning a \<and> marketSummary ?d = marketSummary a \<and>
      historicalPriceAnalysis ?d = historicalPriceAnalysis a \<and> sources ?d = sources a"
    unfolding p by simp
  from state upd fields
  show "\<exists>d. handleAnalysis rnd ai predictPrice' predictBatch' (UrlInput url comps) =
              \<lparr> status = Success, data = Some [d], error = None \<rparr> \<and>
            (\<exists>p. d = a\<lparr>suggestedPrice := p\<rparr>) \<and>
            userProduct d = userProduct a \<and> competitors d = competitors a \<and>
            reasoning d = reasoning a \<and> marketSummary d = marketSummary a \<and>
            historicalPriceAnalysis d = historicalPriceAnalysis a \<and> sources d = sources a"
    by blast
next
  fix as
  assume batch: "analyzeBatchProducts ai products = Inr as"
  let ?ds = "refineBatch rnd predictBatch' as"
  have state: "handleAnalysis rnd ai predictPrice' predictBatch' (CsvInput products) =
      \<lparr> status = Success, data = Some ?ds, error = None \<rparr>"
    using batch by (simp add: handleAnalysis_def)
  have len: "length ?ds = length as"
    by (rule refineBatch_length)
  have each: "\<forall>k<length as.
                (\<exists>p. ?ds ! k = (as ! k)\<lparr>suggestedPrice := p\<rparr>) \<and>
                userProduct (?ds ! k) = userProduct (as ! k) \<and>
                competitors (?ds ! k) = competitors (as ! k) \<and>
                reasoning (?ds ! k) = reasoning (as ! k) \<and>
                marketSummary (?ds ! k) = marketSummary (as ! k) \<and>
                historicalPriceAnalysis (?ds ! k) = historicalPriceAnalysis (as ! k) \<and>
                sources (?ds ! k) = sources (as ! k)"
  proof (intro allI impI)
    fix k
    assume k: "k < length as"
    have "\<exists>p. ?ds ! k = (as ! k)\<lparr>suggestedPrice := p\<rparr>"
    proof (cases "predictBatch' (analysesToPredictPayloads rnd as)")
      case (Inl e)
      then show ?thesis
        using suggestedPrice_self_update [of "as ! k"] by (simp add: refineBatch_def)
    next
      case (Inr ps)
      then show ?thesis
        using applyPredictions_frame [OF k] by (simp add: refineBatch_def)
    qed
    then obtain p where p: "?ds ! k = (as ! k)\<lparr>suggestedPrice := p\<rparr>" by blast
    have "userProduct (?ds ! k) = userProduct (as ! k) \<and>
                competitors (?ds ! k) = competitors (as ! k) \<and>
                reasoning (?ds ! k) = reasoning (as ! k) \<and>
                marketSummary (?ds ! k) = marketSummary (as ! k) \<and>
                historicalPriceAnalysis (?ds ! k) = historicalPriceAnalysis (as ! k) \<and>
                sources (?ds ! k) = sources (as ! k)"
      unfolding p by simp
    with p show "(\<exists>p. ?ds ! k = (as ! k)\<lparr>suggestedPrice := p\<rparr>) \<and>
                userProduct (?ds ! k) = userProduct (as ! k) \<and>
                competitors (?ds ! k) = competitors (as ! k) \<and>
                reasoning (?ds ! k) = reasoning (as ! k) \<and>
                marketSummary (?ds ! k) = marketSummary (as ! k) \<and>
                historicalPriceAnalysis (?ds ! k) = historicalPriceAnalysis (as ! k) \<and>
                sources (?ds ! k) = sources (as ! k)"
      by blast
  qed
  from state len each
  show "\<exists>ds. handleAnalysis rnd ai predictPrice' predictBatch' (CsvInput products) =
               \<lparr> status = Success, data = Some ds, error = None \<rparr> \<and>
             length ds = length as \<and>
             (\<forall>k<length as.
                (\<exists>p. ds ! k = (as ! k)\<lparr>suggestedPrice := p\<rparr>) \<and>
                userProduct (ds ! k) = userProduct (as ! k) \<and>
                competitors (ds ! k) = competitors (as ! k) \<and>
                reasoning (ds ! k) = reasoning (as ! k) \<and>
                marketSummary (ds ! k) = marketSummary (as ! k) \<and>
                historicalPriceAnalysis (ds ! k) = historicalPriceAnalysis (as ! k) \<and>
                sources (ds ! k) = sources (as ! k))"
    by blast
qed

theorem refinement_frame_witness:
  "(\<exists>d. handleAnalysis Num sampleAi (\<lambda>payload. Inr (Num 399)) (\<lambda>payloads. Inr [JNum (Num 399), JNum (Num 415)])
          (UrlInput ''https://shop.example/trail-shoe'' []) =
         \<lparr> status = Success, data = Some [d], error = None \<rparr> \<and>
        reasoning d = ''Priced just below the category median.'' \<and>
        marketSummary d = ''Three sellers, stable prices.'' \<and>
        competitors d = Some [])
   \<and> (\<exists>ds. handleAnalysis Num sampleAi (\<lambda>payload. Inr (Num 399)) (\<lambda>payloads. Inr [JNum (Num 399), JNum (Num 415)])
          (CsvInput [sampleProduct ''Trail Shoe'', sampleProduct ''Phone Case'', sampleProduct ''Linen Shirt'']) =
         \<lparr> status = Success, data = Some ds, error = None \<rparr> \<and>
        length ds = 2 \<and>
        userProduct (ds ! 1) = userProduct (sampleAnalysis ''Linen Shirt'' []) \<and>
        reasoning (ds ! 1) = ''Priced just below the category median.'')"
proof -
  let ?pp = "\<lambda>payload :: PredictPayload. (Inr (Num 399) :: string + jsnum)"
  let ?pb = "\<lambda>payloads :: PredictPayload list. (Inr [JNum (Num 399), JNum (Num 415)] :: string + jsval list)"
  let ?products = "[sampleProduct ''Trail Shoe'', sampleProduct ''Phone Case'', sampleProduct ''Linen Shirt'']"
  note frame = refinement_frame [of sampleAi "''https://shop.example/trail-shoe''" "[]" Num ?pp ?pb ?products]
  from frame sample_single
  obtain d where d: "handleAnalysis Num sampleAi ?pp ?pb (UrlInput ''https://shop.example/trail-shoe'' []) =
         \<lparr> status = Success, data = Some [d], error = None \<rparr>"
      "reasoning d = reasoning (sampleAnalysis ''https://shop.example/trail-shoe'' [])"
      "marketSummary d = marketSummary (sampleAnalysis ''https://shop.example/trail-shoe'' [])"
      "competitors d = competitors (sampleAnalysis ''https://shop.example/trail-shoe'' [])"
    by blast
  then have single: "\<exists>d. handleAnalysis Num sampleAi ?pp ?pb (UrlInput ''https://shop.example/trail-shoe'' []) =
         \<lparr> status = Success, data = Some [d], error = None \<rparr> \<and>
        reasoning d = ''Priced just below the category median.'' \<and>
        marketSummary d = ''Three sellers, stable prices.'' \<and>
        competitors d = Some []"
    by (simp add: sampleAnalysis_def)
  from frame sample_batch
  obtain ds where ds: "handleAnalysis Num sampleAi ?pp ?pb (CsvInput ?products) =
         \<lparr> status = Success, data = Some ds, error = None \<rparr>"
      "length ds = length [sampleAnalysis ''Trail Shoe'' [], sampleAnalysis ''Linen Shirt'' []]"
      "\<forall>k<length [sampleAnalysis ''Trail Shoe'' [], sampleAnalysis ''Linen Shirt'' []].
         userProduct (ds ! k) = userProduct ([sampleAnalysis ''Trail Shoe'' [], sampleAnalysis ''Linen Shirt'' []] ! k) \<and>
         reasoning (ds ! k) = reasoning ([sampleAnalysis ''Trail Shoe'' [], sampleAnalysis ''Linen Shirt'' []] ! k)"
    by blast
  from ds(3) [THEN spec [where x = "1::nat"]]
  have "userProduct (ds ! 1) = userProduct (sampleAnalysis ''Linen Shirt'' []) \<and>
      reasoning (ds ! 1) = reasoning (sampleAnalysis ''Linen Shirt'' [])"
    by simp
  with ds(1,2) have batch: "\<exists>ds. handleAnalysis Num sampleAi ?pp ?pb (CsvInput ?products) =
         \<lparr> status = Success, data = Some ds, error = None \<rparr> \<and>
        length ds = 2 \<and>
        userProduct (ds ! 1) = userProduct (sampleAnalysis ''Linen Shirt'' []) \<and>
        reasoning (ds ! 1) = ''Priced just below the category median.''"
    by (simp add: sampleAnalysis_def)
  from single batch show ?thesis by (intro conjI)
qed

section \<open>Batch analysis\<close>

lemma collectResults_eq:
  "collectResults products results index (s, f) =
     (s @ List.map_filter fulfilled results,
      f @ map (\<lambda>(r, j). productName (products ! j))
            (filter (\<lambda>(r, j). isl r) (zip results [index..<index + length results])))"
proof (induction results arbitrary: index s f)
  case Nil
  then show ?case by (simp add: map_filter_simps)
next
  case (Cons r rs)
  have upt: "[index..<index + length (r # rs)] = index # [Suc index..<Suc index + length rs]"
    by (simp add: upt_conv_Cons del: upt_Suc)
  show ?case
    unfolding upt
    by (cases r) (simp_all add: Cons.IH map_filter_simps fulfilled_def)
qed

lemma settledResults_map:
  "settledResults ai products =
     map (\<lambda>i. ai i (userIdentifier (products ! i)) (competitorUrls (products ! i))) [0..<length products]"
  by (rule nth_equalityI) (simp_all add: settledResults_def)

lemma map_filter_fulfilled:
  "List.map_filter fulfilled (map h is) = map (\<lambda>i. projr (h i)) (filter (\<lambda>i. \<not> isl (h i)) is)"
proof (induction "is")
  case Nil
  show ?case by (simp add: map_filter_simps)
next
  case (Cons i "is")
  then show ?case
    by (cases "h i") (simp_all add: map_filter_simps fulfilled_def)
qed

lemma analyzeBatchProducts_eq:
  "analyzeBatchProducts ai products =
     (let successful = List.map_filter fulfilled (settledResults ai products);
          failed = map (\<lambda>(r, j). productName (products ! j))
            (filter (\<lambda>(r, j). isl r) (zip (settledResults ai products) [0..<length products]))
      in if successful = [] \<and> products \<noteq> []
         then Inl (''All product analyses failed. The following products could not be analyzed: '' @
                   join '', '' failed @ ''. Please check the console for more details.'')
         else Inr successful)"
proof -
  have len: "length (settledResults ai products) = length products"
    by (simp add: settledResults_def)
  show ?thesis
    unfolding analyzeBatchProducts_def Let_def collectResults_eq
    by (simp add: len)
qed

text \<open>
  Claim C2. When the AI analysis of at least one product of a batch succeeds, the batch
  returns exactly the analyses of the products whose call succeeded, in the order of the
  input: the value at each succeeding position, positions taken in increasing order,
  with nothing in the place of a failed one.
\<close>

theorem analyzeBatchProducts_successes:
  assumes "\<exists>i<length products. \<not> isl (ai i (userIdentifier (products ! i)) (competitorUrls (products ! i)))"
  shows "analyzeBatchProducts ai products =
     Inr (map (\<lambda>i. projr (ai i (userIdentifier (products ! i)) (competitorUrls (products ! i))))
            (filter (\<lambda>i. \<not> isl (ai i (userIdentifier (products ! i)) (competitorUrls (products ! i))))
               [0..<length products]))"
proof -
  let ?h = "\<lambda>i. ai i (userIdentifier (products ! i)) (competitorUrls (products ! i))"
  have succ: "List.map_filter fulfilled (settledResults ai products) =
      map (\<lambda>i. projr (?h i)) (filter (\<lambda>i. \<not> isl (?h i)) [0..<length products])"
    unfolding settledResults_map by (rule map_filter_fulfilled)
  from assms obtain i where "i < length products" "\<not> isl (?h i)" by blast
  then have "i \<in> set (filter (\<lambda>i. \<not> isl (?h i)) [0..<length products])" by simp
  then have "filter (\<lambda>i. \<not> isl (?h i)) [0..<length products] \<noteq> []"
    by (metis empty_iff list.set(1))
  then show ?thesis
    unfolding analyzeBatchProducts_eq Let_def succ by simp
qed

theorem analyzeBatchProducts_successes_witness:
  "analyzeBatchProducts sampleAi
     [sampleProduct ''Trail Shoe'', sampleProduct ''Phone Case'', sampleProduct ''Linen Shirt''] =
   Inr [sampleAnalysis ''Trail Shoe'' [], sampleAnalysis ''Linen Shirt'' []]
   \<and> sampleAi 0 (userIdentifier (sampleProduct ''Trail Shoe'')) [] = Inr (sampleAnalysis ''Trail Shoe'' [])
   \<and> isl (sampleAi 1 (userIdentifier (sampleProduct ''Phone Case'')) [])
   \<and> sampleAi 2 (userIdentifier (sampleProduct ''Linen Shirt'')) [] = Inr (sampleAnalysis ''Linen Shirt'' [])"
proof -
  let ?products = "[sampleProduct ''Trail Shoe'', sampleProduct ''Phone Case'', sampleProduct ''Linen Shirt'']"
  have ex: "\<exists>i<length ?products.
      \<not> isl (sampleAi i (userIdentifier (?products ! i)) (competitorUrls (?products ! i)))"
    by (rule exI [of _ 0]) (simp add: sampleAi_def)
  have idx: "[0..<length ?products] = [0, 1, 2]"
    by (simp add: upt_rec)
  have "analyzeBatchProducts sampleAi ?products =
      Inr [sampleAnalysis ''Trail Shoe'' [], sampleAnalysis ''Linen Shirt'' []]"
    unfolding analyzeBatchProducts_successes [of ?products sampleAi, OF ex] idx
    by (simp add: sampleAi_def userIdentifier_def sampleProduct_def)
  then show ?thesis
    by (simp add: sampleAi_def userIdentifier_def sampleProduct_def)
qed

text \<open>
  Claim C5. When the batch is not empty and the AI analysis of every product fails, the
  batch fails with one error, and its message lists the \<open>productName\<close> of every product
  of the batch, in order, separated by commas; no list is returned. An empty batch
  returns the empty list without error.
\<close>

theorem analyzeBatchProducts_all_failed:
  "(products \<noteq> [] \<and>
    (\<forall>i<length products. isl (ai i (userIdentifier (products ! i)) (competitorUrls (products ! i)))) \<longrightarrow>
      analyzeBatchProducts ai products =
        Inl (''All product analyses failed. The following products could not be analyzed: '' @
             join '', '' (map productName products) @
             ''. Please check the console for more details.''))
   \<and> analyzeBatchProducts ai [] = Inr []"
proof (intro conjI impI)
  assume a: "products \<noteq> [] \<and>
    (\<forall>i<length products. isl (ai i (userIdentifier (products ! i)) (competitorUrls (products ! i))))"
  let ?h = "\<lambda>i. ai i (userIdentifier (products ! i)) (competitorUrls (products ! i))"
  let ?rs = "settledResults ai products"
  have len: "length ?rs = length products"
    by (simp add: settledResults_def)
  have all: "\<forall>r\<in>set ?rs. isl r"
    using a unfolding settledResults_map by auto
  have succ: "List.map_filter fulfilled ?rs = []"
    unfolding settledResults_map map_filter_fulfilled using a by simp
  have "filter (\<lambda>(r, j). isl r) (zip ?rs [0..<length products]) = zip ?rs [0..<length products]"
    using all by (auto simp: filter_id_conv dest: set_zip_leftD)
  moreover have "map (\<lambda>(r, j). productName (products ! j)) (zip ?rs [0..<length products]) =
      map (\<lambda>j. productName (products ! j)) (map snd (zip ?rs [0..<length products]))"
    by (simp add: case_prod_beta)
  moreover have "map snd (zip ?rs [0..<length products]) = [0..<length products]"
    using len by (simp add: map_snd_zip)
  moreover have "map (\<lambda>j. productName (products ! j)) [0..<length products] = map productName products"
    by (rule nth_equalityI) simp_all
  ultimately have failed: "map (\<lambda>(r, j). productName (products ! j))
      (filter (\<lambda>(r, j). isl r) (zip ?rs [0..<length products])) = map productName products"
    by simp
  show "analyzeBatchProducts ai products =
        Inl (''All product analyses failed. The following products could not be analyzed: '' @
             join '', '' (map productName products) @
             ''. Please check the console for more details.'')"
    unfolding analyzeBatchProducts_eq Let_def succ failed using a by simp
next
  show "analyzeBatchProducts ai [] = Inr []"
    by (simp add: analyzeBatchProducts_def settledResults_def)
qed

theorem analyzeBatchProducts_all_failed_witness:
  "analyzeBatchProducts (\<lambda>index ident urls. Inl ''Failed to get analysis from AI: timeout.'')
     [sampleProduct ''Trail Shoe'', sampleProduct ''Phone Case''] =
   Inl ''All product analyses failed. The following products could not be analyzed: Trail Shoe, Phone Case. Please check the console for more details.''"
proof -
  let ?ai = "\<lambda>(index::nat) (ident::UserIdentifier) (urls::string list).
      (Inl ''Failed to get analysis from AI: timeout.'' :: string + ProductAnalysis)"
  let ?products = "[sampleProduct ''Trail Shoe'', sampleProduct ''Phone Case'']"
  have hyp: "?products \<noteq> [] \<and>
      (\<forall>i<length ?products. isl (?ai i (userIdentifier (?products ! i)) (competitorUrls (?products ! i))))"
    by simp
  show ?thesis
    unfolding analyzeBatchProducts_all_failed [of ?products ?ai, THEN conjunct1, THEN mp, OF hyp]
    by (simp add: sampleProduct_def)
qed

section \<open>CSV field escaping\<close>

lemma str_includes_single: "str_includes s [c] \<longleftrightarrow> c \<in> set s"
  by (induction s) auto

lemma doubleQuotes_Cons:
  "doubleQuotes (c # s) = (if c = DQ then DQ # DQ # doubleQuotes s else c # doubleQuotes s)"
  by (simp add: doubleQuotes_def)

lemma doubleQuotes_Nil: "doubleQuotes [] = []"
  by (simp add: doubleQuotes_def)

lemma spec_undoubleQuotes_doubleQuotes: "spec_undoubleQuotes (doubleQuotes s) = s"
proof (induction s)
  case Nil
  show ?case by (simp add: doubleQuotes_Nil)
next
  case (Cons c s)
  show ?case
  proof (cases "c = DQ")
    case True
    with Cons show ?thesis by (simp add: doubleQuotes_Cons)
  next
    case False
    show ?thesis
    proof (cases "doubleQuotes s")
      case Nil
      with Cons have "s = []" by simp
      with False show ?thesis by (simp add: doubleQuotes_Cons doubleQuotes_Nil)
    next
      case (Cons b cs)
      with False \<open>spec_undoubleQuotes (doubleQuotes s) = s\<close> show ?thesis
        by (simp add: doubleQuotes_Cons)
    qed
  qed
qed

lemma escape_string:
  "escapeCsvField ns (JStr s) =
     (if CHR '','' \<in> set s \<or> DQ \<in> set s \<or> LF \<in> set s then [DQ] @ doubleQuotes s @ [DQ] else s)"
  by (simp add: escapeCsvField_def str_includes_single)

lemma unescape_escape_string: "spec_unescapeCsvField (escapeCsvField ns (JStr s)) = s"
proof (cases "CHR '','' \<in> set s \<or> DQ \<in> set s \<or> LF \<in> set s")
  case True
  then have "escapeCsvField ns (JStr s) = DQ # (doubleQuotes s @ [DQ])"
    by (simp add: escape_string)
  then show ?thesis
    by (simp add: spec_unescapeCsvField_def spec_undoubleQuotes_doubleQuotes)
next
  case False
  then have esc: "escapeCsvField ns (JStr s) = s"
    by (simp add: escape_string)
  from False have "s = [] \<or> hd s \<noteq> DQ"
    by (cases s) auto
  then show ?thesis
    unfolding esc by (cases s) (auto simp: spec_unescapeCsvField_def)
qed

lemma escape_any:
  "escapeCsvField ns v =
     (if v = JNull \<or> v = JUndefined then [] else escapeCsvField ns (JStr (String_js ns v)))"
  by (simp add: escapeCsvField_def)

text \<open>
  Claim C6. \<^verbatim>\<open>escapeCsvField\<close> gives the empty string for \<^verbatim>\<open>null\<close> and
  \<^verbatim>\<open>undefined\<close>. For any other value it takes the string form; a string form without
  comma, double quote and line feed is returned as it is, any other is returned between
  double quotes with each double quote inside doubled. Reading an escaped string back by
  the inverse rule gives the string again, for every string. \<^verbatim>\<open>a,b\<close> becomes
  \<^verbatim>\<open>"a,b"\<close> and \<^verbatim>\<open>he said "hi"\<close> becomes \<^verbatim>\<open>"he said ""hi"""\<close>.
\<close>

theorem escapeCsvField_roundtrip:
  "escapeCsvField ns JNull = [] \<and> escapeCsvField ns JUndefined = []
   \<and> escapeCsvField ns v =
       (if v = JNull \<or> v = JUndefined then [] else escapeCsvField ns (JStr (String_js ns v)))
   \<and> escapeCsvField ns (JStr s) =
       (if CHR '','' \<in> set s \<or> DQ \<in> set s \<or> LF \<in> set s then [DQ] @ doubleQuotes s @ [DQ] else s)
   \<and> doubleQuotes s = concat (map (\<lambda>c. if c = DQ then [DQ, DQ] else [c]) s)
   \<and> spec_unescapeCsvField (escapeCsvField ns (JStr s)) = s
   \<and> spec_unescapeCsvField (escapeCsvField ns v) =
       (if v = JNull \<or> v = JUndefined then [] else String_js ns v)
   \<and> escapeCsvField ns (JStr ''a,b'') = [DQ] @ ''a,b'' @ [DQ]
   \<and> escapeCsvField ns (JStr (''he said '' @ [DQ] @ ''hi'' @ [DQ])) =
       [DQ] @ ''he said '' @ [DQ, DQ] @ ''hi'' @ [DQ, DQ] @ [DQ]"
proof (intro conjI)
  show "escapeCsvField ns JNull = []" "escapeCsvField ns JUndefined = []"
    by (simp_all add: escapeCsvField_def)
  show "escapeCsvField ns v =
       (if v = JNull \<or> v = JUndefined then [] else escapeCsvField ns (JStr (String_js ns v)))"
    by (rule escape_any)
  show "escapeCsvField ns (JStr s) =
       (if CHR '','' \<in> set s \<or> DQ \<in> set s \<or> LF \<in> set s then [DQ] @ doubleQuotes s @ [DQ] else s)"
    by (rule escape_string)
  show "doubleQuotes s = concat (map (\<lambda>c. if c = DQ then [DQ, DQ] else [c]) s)"
    by (rule doubleQuotes_def)
  show "spec_unescapeCsvField (escapeCsvField ns (JStr s)) = s"
    by (rule unescape_escape_string)
  show "spec_unescapeCsvField (escapeCsvField ns v) =
       (if v = JNull \<or> v = JUndefined then [] else String_js ns v)"
  proof (cases "v = JNull \<or> v = JUndefined")
    case True
    then show ?thesis by (auto simp: escapeCsvField_def spec_unescapeCsvField_def)
  next
    case False
    then have "escapeCsvField ns v = escapeCsvField ns (JStr (String_js ns v))"
      using escape_any [of ns v] by simp
    with False show ?thesis by (simp add: unescape_escape_string)
  qed
  show "escapeCsvField ns (JStr ''a,b'') = [DQ] @ ''a,b'' @ [DQ]"
    by (simp add: escape_string doubleQuotes_def DQ_def)
  show "escapeCsvField ns (JStr (''he said '' @ [DQ] @ ''hi'' @ [DQ])) =
       [DQ] @ ''he said '' @ [DQ, DQ] @ ''hi'' @ [DQ, DQ] @ [DQ]"
    by (simp add: escape_string doubleQuotes_def DQ_def)
qed

section \<open>The full CSV export\<close>

lemma foldl_max_Max: "foldl max (a::nat) xs = Max (set (a # xs))"
proof (induction xs arbitrary: a)
  case Nil
  show ?case by simp
next
  case (Cons x xs)
  have "Max (set (max a x # xs)) = Max (set (a # x # xs))"
    by (cases "xs = []") (simp_all add: max.assoc)
  with Cons show ?case by simp
qed

lemma maxCompetitors_Max:
  "data' \<noteq> [] \<Longrightarrow> maxCompetitors data' = Max (competitorCount ` set data')"
proof -
  assume ne: "data' \<noteq> []"
  have fin: "finite (competitorCount ` set data')" and nonempty: "competitorCount ` set data' \<noteq> {}"
    using ne by simp_all
  have "maxCompetitors data' = Max (insert 0 (competitorCount ` set data'))"
    by (simp add: maxCompetitors_def foldl_max_Max)
  also have "\<dots> = max 0 (Max (competitorCount ` set data'))"
    using fin nonempty by (rule Max_insert)
  finally show ?thesis by simp
qed

lemma concat_blocks_length:
  "(\<forall>j<n. length (f j) = 4) \<Longrightarrow> length (concat (map f [0..<n])) = 4 * n"
  by (induction n) simp_all

lemma concat_blocks_nth:
  "(\<forall>j<n. length (f j) = 4) \<Longrightarrow> i < n \<Longrightarrow> k < 4 \<Longrightarrow>
   concat (map f [0..<n]) ! (4 * i + k) = f i ! k"
proof (induction n)
  case 0
  then show ?case by simp
next
  case (Suc n)
  then have len: "length (concat (map f [0..<n])) = 4 * n"
    by (simp add: concat_blocks_length)
  show ?case
  proof (cases "i < n")
    case True
    with Suc have "concat (map f [0..<n]) ! (4 * i + k) = f i ! k" by simp
    moreover from True Suc.prems have "4 * i + k < 4 * n" by simp
    ultimately show ?thesis by (simp add: nth_append len)
  next
    case False
    with Suc.prems have "i = n" by simp
    then show ?thesis by (simp add: nth_append len)
  qed
qed

lemma competitorHeaders_blocks:
  "competitorHeaders n = concat (map (\<lambda>i. headerGroup (Suc i)) [0..<n])"
proof -
  have "[1..<Suc n] = map Suc [0..<n]"
    by (simp add: map_Suc_upt del: upt_Suc)
  then show ?thesis
    by (simp add: competitorHeaders_def headerGroup_def comp_def del: upt_Suc)
qed

lemma competitorHeaders_length: "length (competitorHeaders n) = 4 * n"
  unfolding competitorHeaders_blocks by (rule concat_blocks_length) (simp add: headerGroup_def)

lemma competitorHeaders_nth:
  "i < n \<Longrightarrow> k < 4 \<Longrightarrow> competitorHeaders n ! (4 * i + k) = headerGroup (Suc i) ! k"
  unfolding competitorHeaders_blocks
  by (rule concat_blocks_nth [where f = "\<lambda>i. headerGroup (Suc i)"]) (simp_all add: headerGroup_def)

lemma competitorCells_length: "length (competitorCells ns a i) = 4"
  by (simp add: competitorCells_def split: option.splits)

lemma competitorRowData_length: "length (competitorRowData ns n a) = 4 * n"
  unfolding competitorRowData_def by (rule concat_blocks_length) (simp add: competitorCells_length)

lemma competitorRowData_nth:
  "i < n \<Longrightarrow> k < 4 \<Longrightarrow> competitorRowData ns n a ! (4 * i + k) = competitorCells ns a i ! k"
  unfolding competitorRowData_def
  by (rule concat_blocks_nth) (simp_all add: competitorCells_length)

lemma competitorCells_padding:
  "competitorCount a \<le> i \<Longrightarrow> competitorCells ns a i = [[], [], [], []]"
  by (simp add: competitorCells_def competitorCount_def split: option.splits)

lemma csvHeaders_length: "length (csvHeaders data') = 6 + 4 * maxCompetitors data'"
  by (simp add: csvHeaders_def baseHeaders_def competitorHeaders_length)

lemma csvRow_length: "length (csvRow ns n a) = 6 + 4 * n"
  by (simp add: csvRow_def baseRow_def competitorRowData_length)

lemma csvHeaders_nth:
  "i < maxCompetitors data' \<Longrightarrow> k < 4 \<Longrightarrow>
   csvHeaders data' ! (6 + 4 * i + k) = headerGroup (Suc i) ! k"
proof -
  assume a: "i < maxCompetitors data'" "k < 4"
  have "csvHeaders data' ! (6 + 4 * i + k) = competitorHeaders (maxCompetitors data') ! (4 * i + k)"
    by (simp add: csvHeaders_def baseHeaders_def nth_append)
  with a show ?thesis by (simp add: competitorHeaders_nth)
qed

lemma csvRow_padding:
  "competitorCount a \<le> i \<Longrightarrow> i < n \<Longrightarrow> k < 4 \<Longrightarrow> csvRow ns n a ! (6 + 4 * i + k) = []"
proof -
  assume a: "competitorCount a \<le> i" "i < n" "k < 4"
  have "csvRow ns n a ! (6 + 4 * i + k) = competitorRowData ns n a ! (4 * i + k)"
    by (simp add: csvRow_def baseRow_def nth_append)
  also have "\<dots> = competitorCells ns a i ! k"
    using a by (simp add: competitorRowData_nth)
  also have "\<dots> = []"
  proof -
    from a have "k = 0 \<or> k = 1 \<or> k = 2 \<or> k = 3" by arith
    with a show ?thesis by (auto simp: competitorCells_padding)
  qed
  finally show ?thesis .
qed

lemma outsideCommas_append:
  "outsideCommas q (xs @ ys) = outsideCommas q xs + outsideCommas (endsInQuotes q xs) ys"
  by (induction xs arbitrary: q) simp_all

lemma endsInQuotes_append:
  "endsInQuotes q (xs @ ys) = endsInQuotes (endsInQuotes q xs) ys"
  by (induction xs arbitrary: q) simp_all

lemma plain_field:
  "DQ \<notin> set e \<Longrightarrow> CHR '','' \<notin> set e \<Longrightarrow> outsideCommas q e = 0 \<and> endsInQuotes q e = q"
  by (induction e) auto

lemma quoted_body:
  "outsideCommas True (doubleQuotes t) = 0 \<and> endsInQuotes True (doubleQuotes t) = True"
  by (induction t) (simp_all add: doubleQuotes_Cons doubleQuotes_Nil)

lemma sealed_Nil: "sealed []"
  by (simp add: sealed_def)

lemma sealed_plain: "DQ \<notin> set e \<Longrightarrow> CHR '','' \<notin> set e \<Longrightarrow> sealed e"
  by (simp add: sealed_def plain_field)

lemma sealed_escape: "sealed (escapeCsvField ns v)"
proof (cases "v = JNull \<or> v = JUndefined")
  case True
  then show ?thesis by (auto simp: escapeCsvField_def sealed_Nil)
next
  case False
  let ?s = "String_js ns v"
  have esc: "escapeCsvField ns v = escapeCsvField ns (JStr ?s)"
    using False escape_any [of ns v] by simp
  show ?thesis
  proof (cases "CHR '','' \<in> set ?s \<or> DQ \<in> set ?s \<or> LF \<in> set ?s")
    case True
    then have "escapeCsvField ns v = DQ # (doubleQuotes ?s @ [DQ])"
      unfolding esc by (simp add: escape_string)
    then show ?thesis
      by (simp add: sealed_def outsideCommas_append endsInQuotes_append quoted_body)
  next
    case False
    then have "escapeCsvField ns v = ?s"
      unfolding esc by (simp add: escape_string)
    with False show ?thesis by (simp add: sealed_plain)
  qed
qed

lemma join_sealed:
  "fs \<noteq> [] \<Longrightarrow> \<forall>e\<in>set fs. sealed e \<Longrightarrow>
   outsideCommas False (join '','' fs) = length fs - 1 \<and> endsInQuotes False (join '','' fs) = False"
proof (induction "'',''" fs rule: join.induct)
  case 1
  then show ?case by simp
next
  case (2 x)
  then show ?case by (simp add: sealed_def)
next
  case (3 x y ys)
  then have rest: "outsideCommas False (join '','' (y # ys)) = length (y # ys) - 1"
      "endsInQuotes False (join '','' (y # ys)) = False"
    by simp_all
  from 3 have x: "outsideCommas False x = 0" "endsInQuotes False x = False"
    by (simp_all add: sealed_def)
  have comma: "CHR '','' \<noteq> DQ"
    by (simp add: DQ_def)
  show ?case
    using rest x comma
    by (simp add: outsideCommas_append endsInQuotes_append)
qed

lemma spec_csvFieldCount_join:
  "fs \<noteq> [] \<Longrightarrow> \<forall>e\<in>set fs. sealed e \<Longrightarrow> spec_csvFieldCount (join '','' fs) = length fs"
  using join_sealed [of fs] by (cases fs) (simp_all add: spec_csvFieldCount_def)

lemma showNat_digits: "set (showNat n) \<subseteq> set ''0123456789''"
proof (induction n rule: showNat.induct)
  case (1 n)
  have digit: "digitChar k \<in> set ''0123456789''" if "k < 10" for k
    unfolding digitChar_def using that by (intro nth_mem) simp
  show ?case
  proof (cases "n < 10")
    case True
    then show ?thesis
      using digit [of n] by (subst showNat.simps) simp
  next
    case False
    then have "set (showNat (n div 10)) \<subseteq> set ''0123456789''"
      by (rule "1.IH")
    moreover have "digitChar (n mod 10) \<in> set ''0123456789''"
      by (rule digit) simp
    ultimately show ?thesis
      using False by (subst showNat.simps) simp
  qed
qed

lemma showNat_plain: "DQ \<notin> set (showNat n) \<and> CHR '','' \<notin> set (showNat n)"
  using showNat_digits [of n] by (auto simp: DQ_def)

lemma sealed_headerGroup: "e \<in> set (headerGroup i) \<Longrightarrow> sealed e"
  using showNat_plain [of i] by (auto simp: headerGroup_def DQ_def intro!: sealed_plain)

lemma sealed_csvHeaders: "e \<in> set (csvHeaders data') \<Longrightarrow> sealed e"
proof -
  assume "e \<in> set (csvHeaders data')"
  then consider "e \<in> set baseHeaders" | "e \<in> set (competitorHeaders (maxCompetitors data'))"
    by (auto simp: csvHeaders_def)
  then show ?thesis
  proof cases
    case 1
    then show ?thesis by (auto simp: baseHeaders_def DQ_def intro!: sealed_plain)
  next
    case 2
    then obtain i where "e \<in> set (headerGroup (Suc i))"
      unfolding competitorHeaders_blocks by auto
    then show ?thesis by (rule sealed_headerGroup)
  qed
qed

lemma sealed_csvRow: "e \<in> set (csvRow ns n a) \<Longrightarrow> sealed e"
proof -
  assume "e \<in> set (csvRow ns n a)"
  then consider "e \<in> set (baseRow ns a)" | i where "e \<in> set (competitorCells ns a i)"
    by (auto simp: csvRow_def competitorRowData_def)
  then show ?thesis
  proof cases
    case 1
    then show ?thesis by (auto simp: baseRow_def sealed_escape)
  next
    case 2
    then show ?thesis
      by (auto simp: competitorCells_def sealed_escape sealed_Nil split: option.splits if_splits)
  qed
qed

lemma spec_csvFieldCount_header: "spec_csvFieldCount (join '','' (csvHeaders data')) = 6 + 4 * maxCompetitors data'"
proof -
  have "csvHeaders data' \<noteq> []"
    by (simp add: csvHeaders_def baseHeaders_def)
  then have "spec_csvFieldCount (join '','' (csvHeaders data')) = length (csvHeaders data')"
    using sealed_csvHeaders by (intro spec_csvFieldCount_join) auto
  then show ?thesis by (simp add: csvHeaders_length)
qed

lemma spec_csvFieldCount_row: "spec_csvFieldCount (join '','' (csvRow ns n a)) = 6 + 4 * n"
proof -
  have "csvRow ns n a \<noteq> []"
    by (simp add: csvRow_def baseRow_def)
  then have "spec_csvFieldCount (join '','' (csvRow ns n a)) = length (csvRow ns n a)"
    using sealed_csvRow by (intro spec_csvFieldCount_join) auto
  then show ?thesis by (simp add: csvRow_length)
qed

text \<open>
  Claim C7. For a result set that is not empty, the header of the full CSV export is the
  six base columns followed by four columns for each \<open>N\<close> from 1 to \<open>max\<close>, named
  \<open>Competitor N Name\<close>, \<open>Price\<close>, \<open>Stock Status\<close> and \<open>Price Trend\<close>, where \<open>max\<close> is the
  largest number of competitors of any analysis of the set. Every row has as many fields
  as the header, and in a row whose analysis has fewer competitors than \<open>max\<close> the fields
  of the unused groups are empty strings. The exported text is the header and the rows,
  each joined with commas, joined with line feeds; read back by the inverse quoting rule,
  the header line and every row line have that same number of fields.
\<close>

theorem exportToCsv_columns:
  assumes "data' \<noteq> []"
  shows "exportToCsv ns data' =
       Some (join [LF] (join '','' (csvHeaders data') #
                        map (\<lambda>analysis. join '','' (csvRow ns (maxCompetitors data') analysis)) data'))
   \<and> maxCompetitors data' = Max (competitorCount ` set data')
   \<and> length (csvHeaders data') = 6 + 4 * maxCompetitors data'
   \<and> take 6 (csvHeaders data') =
       [''Product Name'', ''Current Price'', ''Suggested Price'', ''Market Summary'',
        ''Historical Price Analysis'', ''Reasoning'']
   \<and> (\<forall>N. 1 \<le> N \<and> N \<le> maxCompetitors data' \<longrightarrow>
         csvHeaders data' ! (6 + 4 * (N - 1)) = ''Competitor '' @ showNat N @ '' Name'' \<and>
         csvHeaders data' ! (6 + 4 * (N - 1) + 1) = ''Competitor '' @ showNat N @ '' Price'' \<and>
         csvHeaders data' ! (6 + 4 * (N - 1) + 2) = ''Competitor '' @ showNat N @ '' Stock Status'' \<and>
         csvHeaders data' ! (6 + 4 * (N - 1) + 3) = ''Competitor '' @ showNat N @ '' Price Trend'')
   \<and> (\<forall>analysis\<in>set data'.
         length (csvRow ns (maxCompetitors data') analysis) = length (csvHeaders data'))
   \<and> (\<forall>analysis\<in>set data'. \<forall>i k.
         competitorCount analysis \<le> i \<and> i < maxCompetitors data' \<and> k < 4 \<longrightarrow>
         csvRow ns (maxCompetitors data') analysis ! (6 + 4 * i + k) = [])
   \<and> spec_csvFieldCount (join '','' (csvHeaders data')) = 6 + 4 * maxCompetitors data'
   \<and> (\<forall>analysis\<in>set data'.
         spec_csvFieldCount (join '','' (csvRow ns (maxCompetitors data') analysis)) =
         spec_csvFieldCount (join '','' (csvHeaders data')))"
proof (intro conjI)
  show "exportToCsv ns data' =
       Some (join [LF] (join '','' (csvHeaders data') #
                        map (\<lambda>analysis. join '','' (csvRow ns (maxCompetitors data') analysis)) data'))"
    using assms by (simp add: exportToCsv_def)
  show "maxCompetitors data' = Max (competitorCount ` set data')"
    using assms by (rule maxCompetitors_Max)
  show "length (csvHeaders data') = 6 + 4 * maxCompetitors data'"
    by (rule csvHeaders_length)
  show "take 6 (csvHeaders data') =
       [''Product Name'', ''Current Price'', ''Suggested Price'', ''Market Summary'',
        ''Historical Price Analysis'', ''Reasoning'']"
    by (simp add: csvHeaders_def baseHeaders_def)
  show "\<forall>N. 1 \<le> N \<and> N \<le> maxCompetitors data' \<longrightarrow>
         csvHeaders data' ! (6 + 4 * (N - 1)) = ''Competitor '' @ showNat N @ '' Name'' \<and>
         csvHeaders data' ! (6 + 4 * (N - 1) + 1) = ''Competitor '' @ showNat N @ '' Price'' \<and>
         csvHeaders data' ! (6 + 4 * (N - 1) + 2) = ''Competitor '' @ showNat N @ '' Stock Status'' \<and>
         csvHeaders data' ! (6 + 4 * (N - 1) + 3) = ''Competitor '' @ showNat N @ '' Price Trend''"
  proof (intro allI impI)
    fix N
    assume "1 \<le> N \<and> N \<le> maxCompetitors data'"
    then have i: "N - 1 < maxCompetitors data'" and N: "Suc (N - 1) = N"
      by arith+
    have "csvHeaders data' ! (6 + 4 * (N - 1) + 0) = headerGroup N ! 0"
      "csvHeaders data' ! (6 + 4 * (N - 1) + 1) = headerGroup N ! 1"
      "csvHeaders data' ! (6 + 4 * (N - 1) + 2) = headerGroup N ! 2"
      "csvHeaders data' ! (6 + 4 * (N - 1) + 3) = headerGroup N ! 3"
      using csvHeaders_nth [OF i, of 0] csvHeaders_nth [OF i, of 1]
        csvHeaders_nth [OF i, of 2] csvHeaders_nth [OF i, of 3]
      unfolding N by simp_all
    then show "csvHeaders data' ! (6 + 4 * (N - 1)) = ''Competitor '' @ showNat N @ '' Name'' \<and>
         csvHeaders data' ! (6 + 4 * (N - 1) + 1) = ''Competitor '' @ showNat N @ '' Price'' \<and>
         csvHeaders data' ! (6 + 4 * (N - 1) + 2) = ''Competitor '' @ showNat N @ '' Stock Status'' \<and>
         csvHeaders data' ! (6 + 4 * (N - 1) + 3) = ''Competitor '' @ showNat N @ '' Price Trend''"
      by (simp add: headerGroup_def)
  qed
  show "\<forall>analysis\<in>set data'.
         length (csvRow ns (maxCompetitors data') analysis) = length (csvHeaders data')"
    by (simp add: csvRow_length csvHeaders_length)
  show "\<forall>analysis\<in>set data'. \<forall>i k.
         competitorCount analysis \<le> i \<and> i < maxCompetitors data' \<and> k < 4 \<longrightarrow>
         csvRow ns (maxCompetitors data') analysis ! (6 + 4 * i + k) = []"
    by (simp add: csvRow_padding)
  show "spec_csvFieldCount (join '','' (csvHeaders data')) = 6 + 4 * maxCompetitors data'"
    by (rule spec_csvFieldCount_header)
  show "\<forall>analysis\<in>set data'.
         spec_csvFieldCount (join '','' (csvRow ns (maxCompetitors data') analysis)) =
         spec_csvFieldCount (join '','' (csvHeaders data'))"
    by (simp add: spec_csvFieldCount_header spec_csvFieldCount_row)
qed

lemma sample_maxCompetitors:
  "maxCompetitors
     [sampleAnalysis ''Trail Shoe'' [sampleCompetitor ''Road Shoe''],
      sampleAnalysis ''Linen Shirt''
        [sampleCompetitor ''Cotton Shirt'', sampleCompetitor ''Silk Shirt'', sampleCompetitor ''Wool Shirt'']] = 3"
  by (simp add: maxCompetitors_def competitorCount_def sampleAnalysis_def)

theorem exportToCsv_columns_witness:
  "length (csvHeaders
     [sampleAnalysis ''Trail Shoe'' [sampleCompetitor ''Road Shoe''],
      sampleAnalysis ''Linen Shirt''
        [sampleCompetitor ''Cotton Shirt'', sampleCompetitor ''Silk Shirt'', sampleCompetitor ''Wool Shirt'']]) = 6 + 12
   \<and> length (csvRow sampleNumberString 3 (sampleAnalysis ''Trail Shoe'' [sampleCompetitor ''Road Shoe''])) = 18
   \<and> drop 10 (csvRow sampleNumberString 3 (sampleAnalysis ''Trail Shoe'' [sampleCompetitor ''Road Shoe''])) =
       [[], [], [], [], [], [], [], []]
   \<and> csvHeaders
     [sampleAnalysis ''Trail Shoe'' [sampleCompetitor ''Road Shoe''],
      sampleAnalysis ''Linen Shirt''
        [sampleCompetitor ''Cotton Shirt'', sampleCompetitor ''Silk Shirt'', sampleCompetitor ''Wool Shirt'']] ! 14 =
       ''Competitor 3 Name''
   \<and> spec_csvFieldCount
       (join '','' (csvRow sampleNumberString 3 (sampleAnalysis ''Trail Shoe'' [sampleCompetitor ''Road Shoe'']))) = 18"
proof -
  let ?a1 = "sampleAnalysis ''Trail Shoe'' [sampleCompetitor ''Road Shoe'']"
  let ?a2 = "sampleAnalysis ''Linen Shirt''
        [sampleCompetitor ''Cotton Shirt'', sampleCompetitor ''Silk Shirt'', sampleCompetitor ''Wool Shirt'']"
  let ?data = "[?a1, ?a2]"
  have ne: "?data \<noteq> []"
    by simp
  note cols = exportToCsv_columns [OF ne, of sampleNumberString, unfolded sample_maxCompetitors]
  have count: "competitorCount ?a1 = 1"
    by (simp add: competitorCount_def sampleAnalysis_def)
  from cols have hlen: "length (csvHeaders ?data) = 6 + 12"
    by simp
  from cols have rlen: "length (csvRow sampleNumberString 3 ?a1) = 18"
    by simp
  from cols have pad: "\<forall>i k. competitorCount ?a1 \<le> i \<and> i < 3 \<and> k < 4 \<longrightarrow>
      csvRow sampleNumberString 3 ?a1 ! (6 + 4 * i + k) = []"
    by simp
  have cells: "csvRow sampleNumberString 3 ?a1 ! (6 + 4 * i + k) = []" if "1 \<le> i" "i < 3" "k < 4" for i k
    using pad that unfolding count by blast
  have "drop 10 (csvRow sampleNumberString 3 ?a1) = [[], [], [], [], [], [], [], []]"
  proof (rule nth_equalityI)
    show "length (drop 10 (csvRow sampleNumberString 3 ?a1)) = length [[], [], [], [], [], [], [], [] :: string]"
      using rlen by simp
  next
    fix j
    assume "j < length (drop 10 (csvRow sampleNumberString 3 ?a1))"
    with rlen have j: "j < 8" by simp
    then obtain i k where ik: "10 + j = 6 + 4 * i + k" "1 \<le> i" "i < 3" "k < 4"
    proof -
      have "10 + j = 6 + 4 * (1 + j div 4) + j mod 4" by presburger
      moreover have "1 \<le> 1 + j div 4" "1 + j div 4 < 3" "j mod 4 < 4" using j by simp_all
      ultimately show ?thesis using that by blast
    qed
    have "drop 10 (csvRow sampleNumberString 3 ?a1) ! j = csvRow sampleNumberString 3 ?a1 ! (10 + j)"
      using rlen j by simp
    also have "\<dots> = []"
      unfolding ik(1) using ik(2-4) by (rule cells)
    finally show "drop 10 (csvRow sampleNumberString 3 ?a1) ! j = [[], [], [], [], [], [], [], []] ! j"
      using j by (simp add: nth_Cons')
  qed
  moreover
  from cols [THEN conjunct2, THEN conjunct2, THEN conjunct2, THEN conjunct2, THEN conjunct1,
      THEN spec, of 3]
  have "csvHeaders ?data ! 14 = ''Competitor '' @ showNat 3 @ '' Name''"
    by simp
  then have "csvHeaders ?data ! 14 = ''Competitor 3 Name''"
    by (simp add: showNat.simps digitChar_def)
  moreover
  from cols have "spec_csvFieldCount (join '','' (csvRow sampleNumberString 3 ?a1)) = 18"
    by simp
  ultimately show ?thesis using hlen rlen by simp
qed

section \<open>CSV ingestion\<close>

lemma trim_Nil: "trim [] = []"
  by (simp add: trim_def)

lemma productData_snoc:
  "productData (hs @ [h]) vs = (productData hs vs)(h \<mapsto> trim (vs ! length hs))"
proof -
  have "zip (hs @ [h]) [0..<length (hs @ [h])] = zip hs [0..<length hs] @ [(h, length hs)]"
    by simp
  then show ?thesis
    by (simp add: productData_def trim_Nil)
qed

lemma lastIndex_snoc:
  "lastIndex (hs @ [h]) c = (if h = c then length hs else lastIndex hs c)"
proof -
  have "filter (\<lambda>i. (hs @ [h]) ! i = c) [0..<length hs] = filter (\<lambda>i. hs ! i = c) [0..<length hs]"
    by (rule filter_cong) (simp_all add: nth_append)
  then show ?thesis
    by (simp add: lastIndex_def)
qed

lemma productData_lookup:
  "productData header vs c =
     (if c \<in> set header then Some (trim (vs ! lastIndex header c)) else None)"
proof (induction header rule: rev_induct)
  case Nil
  show ?case by (simp add: productData_def)
next
  case (snoc h hs)
  show ?case
    unfolding productData_snoc lastIndex_snoc using snoc by auto
qed

lemma lastIndex_less: "c \<in> set header \<Longrightarrow> lastIndex header c < length header"
proof (induction header rule: rev_induct)
  case Nil
  then show ?case by simp
next
  case (snoc h hs)
  then show ?case
    unfolding lastIndex_snoc by (auto simp: less_Suc_eq)
qed

lemma lastIndex_nth: "c \<in> set header \<Longrightarrow> header ! lastIndex header c = c"
proof (induction header rule: rev_induct)
  case Nil
  then show ?case by simp
next
  case (snoc h hs)
  show ?case
  proof (cases "h = c")
    case True
    then show ?thesis unfolding lastIndex_snoc by simp
  next
    case False
    with snoc.prems have "c \<in> set hs" by simp
    with snoc.IH have "hs ! lastIndex hs c = c" "lastIndex hs c < length hs"
      by (simp_all add: lastIndex_less)
    with False show ?thesis unfolding lastIndex_snoc by (simp add: nth_append)
  qed
qed

lemma parseRow_outcome:
  assumes "''productName'' \<in> set header" "''currentPrice'' \<in> set header"
  shows "parseRow rnd header rowNum row =
     (let vs = splitOn CHR '','' row;
          name = trim (vs ! lastIndex header ''productName'');
          price = trim (vs ! lastIndex header ''currentPrice'')
      in if length vs \<noteq> length header then Inl (WrongColumnCount rowNum (length header) (length vs))
         else if name = [] then Inl (EmptyProductName rowNum)
         else if price = [] then Inl (EmptyCurrentPrice rowNum)
         else if \<not> isFinite (Number_str rnd price) then Inl (InvalidNumber rowNum price)
         else if jsLess0 (Number_str rnd price) then Inl (NegativePrice rowNum price)
         else Inr \<lparr> productName = name,
                    currentPrice = Number_str rnd price,
                    userProductUrl = (case productData header vs ''userProductUrl'' of None \<Rightarrow> [] | Some u \<Rightarrow> u),
                    competitorUrls =
                      (case productData header vs ''competitorUrls'' of
                         None \<Rightarrow> []
                       | Some u \<Rightarrow> filter (\<lambda>x. x \<noteq> []) (map trim (splitOn CHR '';'' u))) \<rparr>)"
proof -
  have empty_urls: "filter (\<lambda>x. x \<noteq> []) (map trim (splitOn CHR '';'' [])) = []"
    by (simp add: trim_Nil)
  show ?thesis
    using assms
    by (auto simp: parseRow_def Let_def productData_lookup empty_urls trim_Nil split: option.splits)
qed

lemma parseRow_errorRow: "parseRow rnd header rowNum row = Inl e \<Longrightarrow> errorRow e = Some rowNum"
  by (auto simp: parseRow_def Let_def split: if_splits)

lemma parseRows_Inr:
  "parseRows rnd header index rows = Inr ps \<longleftrightarrow>
     length ps = length rows \<and>
     (\<forall>i<length rows. parseRow rnd header (index + i + 2) (rows ! i) = Inr (ps ! i))"
proof (induction rows arbitrary: index ps)
  case Nil
  show ?case by auto
next
  case (Cons row rows)
  show ?case
  proof (cases "parseRow rnd header (index + 2) row")
    case (Inl e)
    then show ?thesis by (auto simp: All_less_Suc2)
  next
    case (Inr p)
    show ?thesis
    proof (cases ps)
      case Nil
      with Inr show ?thesis by (auto split: sum.splits)
    next
      case (Cons q qs)
      have "parseRows rnd header (Suc index) rows = Inr qs \<longleftrightarrow>
          length qs = length rows \<and>
          (\<forall>i<length rows. parseRow rnd header (Suc index + i + 2) (rows ! i) = Inr (qs ! i))"
        by (rule Cons.IH)
      with Inr Cons show ?thesis
        by (auto simp: All_less_Suc2 split: sum.splits)
    qed
  qed
qed

lemma parseRows_Inl:
  "parseRows rnd header index rows = Inl e \<longleftrightarrow>
     (\<exists>i<length rows. parseRow rnd header (index + i + 2) (rows ! i) = Inl e \<and>
        (\<forall>j<i. \<exists>p. parseRow rnd header (index + j + 2) (rows ! j) = Inr p))"
proof (induction rows arbitrary: index)
  case Nil
  show ?case by simp
next
  case (Cons row rows)
  note ih = Cons.IH [of "Suc index"]
  show ?case
  proof (cases "parseRow rnd header (index + 2) row")
    case (Inl e')
    show ?thesis
    proof
      assume "parseRows rnd header index (row # rows) = Inl e"
      with Inl have "e' = e" by simp
      with Inl have "parseRow rnd header (index + 0 + 2) ((row # rows) ! 0) = Inl e" by simp
      then show "\<exists>i<length (row # rows). parseRow rnd header (index + i + 2) ((row # rows) ! i) = Inl e \<and>
          (\<forall>j<i. \<exists>p. parseRow rnd header (index + j + 2) ((row # rows) ! j) = Inr p)"
        by (intro exI [of _ 0]) simp
    next
      assume "\<exists>i<length (row # rows). parseRow rnd header (index + i + 2) ((row # rows) ! i) = Inl e \<and>
          (\<forall>j<i. \<exists>p. parseRow rnd header (index + j + 2) ((row # rows) ! j) = Inr p)"
      then obtain i where i: "parseRow rnd header (index + i + 2) ((row # rows) ! i) = Inl e"
          "\<forall>j<i. \<exists>p. parseRow rnd header (index + j + 2) ((row # rows) ! j) = Inr p"
        by blast
      have "i = 0"
      proof (rule ccontr)
        assume "i \<noteq> 0"
        with i(2) have "\<exists>p. parseRow rnd header (index + 0 + 2) ((row # rows) ! 0) = Inr p" by blast
        with Inl show False by simp
      qed
      with i(1) Inl show "parseRows rnd header index (row # rows) = Inl e" by simp
    qed
  next
    case (Inr p)
    have "parseRows rnd header index (row # rows) = Inl e \<longleftrightarrow>
        parseRows rnd header (Suc index) rows = Inl e"
      using Inr by (auto split: sum.splits)
    also have "\<dots> \<longleftrightarrow> (\<exists>i<length rows. parseRow rnd header (Suc index + i + 2) (rows ! i) = Inl e \<and>
        (\<forall>j<i. \<exists>p. parseRow rnd header (Suc index + j + 2) (rows ! j) = Inr p))"
      by (rule ih)
    also have "\<dots> \<longleftrightarrow> (\<exists>i<length (row # rows). parseRow rnd header (index + i + 2) ((row # rows) ! i) = Inl e \<and>
          (\<forall>j<i. \<exists>p. parseRow rnd header (index + j + 2) ((row # rows) ! j) = Inr p))"
      using Inr by (simp add: Ex_less_Suc2 All_less_Suc2)
    finally show ?thesis .
  qed
qed

lemma filter_nth_prefix:
  assumes "r \<le> length xs" "\<forall>k<r. P (xs ! k)" "n < r"
  shows "filter P xs ! n = xs ! n"
proof -
  have "\<forall>x\<in>set (take r xs). P x"
    using assms(1,2) by (auto simp: in_set_conv_nth)
  then have "filter P (take r xs) = take r xs"
    by (simp add: filter_id_conv)
  then have "filter P xs = take r xs @ filter P (drop r xs)"
    by (metis append_take_drop_id filter_append)
  then show ?thesis
    using assms(1,3) by (simp add: nth_append)
qed

lemma parseCsv_rows:
  assumes "2 \<le> length (nonBlankLines text')" "''productName'' \<in> set (csvHeader text')"
    "''currentPrice'' \<in> set (csvHeader text')"
  shows "parseCsv rnd text' = parseRows rnd (csvHeader text') 0 (tl (nonBlankLines text'))"
  using assms by (simp add: parseCsv_def csvHeader_def Let_def)

lemma parseCsv_header_errors:
  "parseCsv rnd text' =
     (if length (nonBlankLines text') < 2 then Inl EmptyFile
      else if ''productName'' \<notin> set (csvHeader text') then Inl (MissingColumn ''productName'')
      else if ''currentPrice'' \<notin> set (csvHeader text') then Inl (MissingColumn ''currentPrice'')
      else parseRows rnd (csvHeader text') 0 (tl (nonBlankLines text')))"
  by (simp add: parseCsv_def csvHeader_def Let_def)

lemma message_row:
  "errorRow e = Some r \<Longrightarrow> \<exists>rest. message e = ''CSV parsing failed on row '' @ showNat r @ '': '' @ rest"
  by (cases e) simp_all

lemma parseCsv_first_failure:
  "2 \<le> length (nonBlankLines text') \<and> ''productName'' \<in> set (csvHeader text') \<and>
      ''currentPrice'' \<in> set (csvHeader text') \<longrightarrow>
       (\<forall>e. parseCsv rnd text' = Inl e \<longleftrightarrow>
          (\<exists>i. i + 1 < length (nonBlankLines text') \<and>
               parseRow rnd (csvHeader text') (i + 2) (nonBlankLines text' ! (i + 1)) = Inl e \<and>
               (\<forall>j<i. \<exists>p. parseRow rnd (csvHeader text') (j + 2) (nonBlankLines text' ! (j + 1)) = Inr p)))"
proof (intro allI impI)
  fix e
  assume hdr: "2 \<le> length (nonBlankLines text') \<and> ''productName'' \<in> set (csvHeader text') \<and>
      ''currentPrice'' \<in> set (csvHeader text')"
  let ?lines = "nonBlankLines text'"
  have nth: "tl ?lines ! i = ?lines ! (i + 1)" if "i < length (tl ?lines)" for i
    using that by (simp add: nth_tl)
  have "parseCsv rnd text' = Inl e \<longleftrightarrow> parseRows rnd (csvHeader text') 0 (tl ?lines) = Inl e"
    using hdr by (simp add: parseCsv_rows)
  also have "\<dots> \<longleftrightarrow> (\<exists>i<length (tl ?lines). parseRow rnd (csvHeader text') (0 + i + 2) (tl ?lines ! i) = Inl e \<and>
        (\<forall>j<i. \<exists>p. parseRow rnd (csvHeader text') (0 + j + 2) (tl ?lines ! j) = Inr p))"
    by (rule parseRows_Inl)
  also have "\<dots> \<longleftrightarrow> (\<exists>i. i + 1 < length ?lines \<and>
               parseRow rnd (csvHeader text') (i + 2) (?lines ! (i + 1)) = Inl e \<and>
               (\<forall>j<i. \<exists>p. parseRow rnd (csvHeader text') (j + 2) (?lines ! (j + 1)) = Inr p))"
  proof
    assume "\<exists>i<length (tl ?lines). parseRow rnd (csvHeader text') (0 + i + 2) (tl ?lines ! i) = Inl e \<and>
        (\<forall>j<i. \<exists>p. parseRow rnd (csvHeader text') (0 + j + 2) (tl ?lines ! j) = Inr p)"
    then obtain i where i: "i < length (tl ?lines)"
        "parseRow rnd (csvHeader text') (0 + i + 2) (tl ?lines ! i) = Inl e"
        "\<forall>j<i. \<exists>p. parseRow rnd (csvHeader text') (0 + j + 2) (tl ?lines ! j) = Inr p"
      by blast
    from i(1) have "i + 1 < length ?lines" by simp
    moreover from i(1,2) have "parseRow rnd (csvHeader text') (i + 2) (?lines ! (i + 1)) = Inl e"
      by (simp add: nth)
    moreover have "\<forall>j<i. \<exists>p. parseRow rnd (csvHeader text') (j + 2) (?lines ! (j + 1)) = Inr p"
    proof (intro allI impI)
      fix j
      assume "j < i"
      with i(1,3) show "\<exists>p. parseRow rnd (csvHeader text') (j + 2) (?lines ! (j + 1)) = Inr p"
        using nth [of j] by auto
    qed
    ultimately show "\<exists>i. i + 1 < length ?lines \<and>
               parseRow rnd (csvHeader text') (i + 2) (?lines ! (i + 1)) = Inl e \<and>
               (\<forall>j<i. \<exists>p. parseRow rnd (csvHeader text') (j + 2) (?lines ! (j + 1)) = Inr p)"
      by blast
  next
    assume "\<exists>i. i + 1 < length ?lines \<and>
               parseRow rnd (csvHeader text') (i + 2) (?lines ! (i + 1)) = Inl e \<and>
               (\<forall>j<i. \<exists>p. parseRow rnd (csvHeader text') (j + 2) (?lines ! (j + 1)) = Inr p)"
    then obtain i where i: "i + 1 < length ?lines"
        "parseRow rnd (csvHeader text') (i + 2) (?lines ! (i + 1)) = Inl e"
        "\<forall>j<i. \<exists>p. parseRow rnd (csvHeader text') (j + 2) (?lines ! (j + 1)) = Inr p"
      by blast
    from i(1) have il: "i < length (tl ?lines)" by simp
    moreover from il i(2) have "parseRow rnd (csvHeader text') (0 + i + 2) (tl ?lines ! i) = Inl e"
      by (simp add: nth)
    moreover have "\<forall>j<i. \<exists>p. parseRow rnd (csvHeader text') (0 + j + 2) (tl ?lines ! j) = Inr p"
    proof (intro allI impI)
      fix j
      assume "j < i"
      with il i(3) show "\<exists>p. parseRow rnd (csvHeader text') (0 + j + 2) (tl ?lines ! j) = Inr p"
        using nth [of j] by auto
    qed
    ultimately show "\<exists>i<length (tl ?lines). parseRow rnd (csvHeader text') (0 + i + 2) (tl ?lines ! i) = Inl e \<and>
        (\<forall>j<i. \<exists>p. parseRow rnd (csvHeader text') (0 + j + 2) (tl ?lines ! j) = Inr p)"
      by blast
  qed
  finally show "parseCsv rnd text' = Inl e \<longleftrightarrow>
          (\<exists>i. i + 1 < length (nonBlankLines text') \<and>
               parseRow rnd (csvHeader text') (i + 2) (nonBlankLines text' ! (i + 1)) = Inl e \<and>
               (\<forall>j<i. \<exists>p. parseRow rnd (csvHeader text') (j + 2) (nonBlankLines text' ! (j + 1)) = Inr p))" .
qed

text \<open>
  Claim C3. Ingestion returns a product for every data row (every non-blank line after
  the header), each the outcome of its own row, or it fails as a whole with one error and
  no list. With a header that has both required columns, it fails exactly with the error
  of the first data row whose validation fails. A row fails, in this order, when its
  number of comma-separated fields differs from the header's (the error carries the row
  number and both counts), when its \<open>productName\<close> is empty after trimming, when its
  \<open>currentPrice\<close> is empty, when the numeric coercion of \<open>currentPrice\<close> is not a finite
  number (the message quotes the value), and when that number is below zero (the message
  says the price cannot be negative).
\<close>

theorem parseCsv_all_or_nothing:
  "(\<forall>ps. parseCsv rnd text' = Inr ps \<longrightarrow>
       length ps = length (nonBlankLines text') - 1 \<and>
       (\<forall>i<length ps.
          parseRow rnd (csvHeader text') (i + 2) (nonBlankLines text' ! (i + 1)) = Inr (ps ! i)))
   \<and> (2 \<le> length (nonBlankLines text') \<and> ''productName'' \<in> set (csvHeader text') \<and>
      ''currentPrice'' \<in> set (csvHeader text') \<longrightarrow>
       (\<forall>e. parseCsv rnd text' = Inl e \<longleftrightarrow>
          (\<exists>i. i + 1 < length (nonBlankLines text') \<and>
               parseRow rnd (csvHeader text') (i + 2) (nonBlankLines text' ! (i + 1)) = Inl e \<and>
               (\<forall>j<i. \<exists>p. parseRow rnd (csvHeader text') (j + 2) (nonBlankLines text' ! (j + 1)) = Inr p))))
   \<and> (''productName'' \<in> set header \<and> ''currentPrice'' \<in> set header \<longrightarrow>
       parseRow rnd header rowNum row =
         (let vs = splitOn CHR '','' row;
              name = trim (vs ! lastIndex header ''productName'');
              price = trim (vs ! lastIndex header ''currentPrice'')
          in if length vs \<noteq> length header then Inl (WrongColumnCount rowNum (length header) (length vs))
             else if name = [] then Inl (EmptyProductName rowNum)
             else if price = [] then Inl (EmptyCurrentPrice rowNum)
             else if \<not> isFinite (Number_str rnd price) then Inl (InvalidNumber rowNum price)
             else if jsLess0 (Number_str rnd price) then Inl (NegativePrice rowNum price)
             else Inr \<lparr> productName = name,
                        currentPrice = Number_str rnd price,
                        userProductUrl =
                          (case productData header vs ''userProductUrl'' of None \<Rightarrow> [] | Some u \<Rightarrow> u),
                        competitorUrls =
                          (case productData header vs ''competitorUrls'' of
                             None \<Rightarrow> []
                           | Some u \<Rightarrow> filter (\<lambda>x. x \<noteq> []) (map trim (splitOn CHR '';'' u))) \<rparr>))
   \<and> message (WrongColumnCount rowNum expected found) =
       ''CSV parsing failed on row '' @ showNat rowNum @ '': Incorrect number of columns. Expected '' @
       showNat expected @ '', but found '' @ showNat found @ ''. Please check for extra commas.''
   \<and> message (InvalidNumber rowNum price) =
       ''CSV parsing failed on row '' @ showNat rowNum @ '': The value '' @ [DQ] @ price @ [DQ] @
       '' in 'currentPrice' is not a valid number.''
   \<and> message (NegativePrice rowNum price) =
       ''CSV parsing failed on row '' @ showNat rowNum @ '': The price '' @ [DQ] @ price @ [DQ] @
       '' cannot be negative.''"
proof (intro conjI)
  show "\<forall>ps. parseCsv rnd text' = Inr ps \<longrightarrow>
       length ps = length (nonBlankLines text') - 1 \<and>
       (\<forall>i<length ps.
          parseRow rnd (csvHeader text') (i + 2) (nonBlankLines text' ! (i + 1)) = Inr (ps ! i))"
  proof (intro allI impI)
    fix ps
    assume ok: "parseCsv rnd text' = Inr ps"
    let ?lines = "nonBlankLines text'"
    from ok have rows: "parseRows rnd (csvHeader text') 0 (tl ?lines) = Inr ps"
      by (simp add: parseCsv_header_errors split: if_splits)
    then have len: "length ps = length (tl ?lines)"
      and each: "\<forall>i<length (tl ?lines). parseRow rnd (csvHeader text') (0 + i + 2) (tl ?lines ! i) = Inr (ps ! i)"
      by (simp_all add: parseRows_Inr)
    have "\<forall>i<length ps. parseRow rnd (csvHeader text') (i + 2) (?lines ! (i + 1)) = Inr (ps ! i)"
    proof (intro allI impI)
      fix i
      assume i: "i < length ps"
      with len have "tl ?lines ! i = ?lines ! (i + 1)"
        by (simp add: nth_tl)
      with each i len show "parseRow rnd (csvHeader text') (i + 2) (?lines ! (i + 1)) = Inr (ps ! i)"
        by auto
    qed
    with len show "length ps = length ?lines - 1 \<and>
       (\<forall>i<length ps. parseRow rnd (csvHeader text') (i + 2) (?lines ! (i + 1)) = Inr (ps ! i))"
      by simp
  qed
next
  show "2 \<le> length (nonBlankLines text') \<and> ''productName'' \<in> set (csvHeader text') \<and>
      ''currentPrice'' \<in> set (csvHeader text') \<longrightarrow>
       (\<forall>e. parseCsv rnd text' = Inl e \<longleftrightarrow>
          (\<exists>i. i + 1 < length (nonBlankLines text') \<and>
               parseRow rnd (csvHeader text') (i + 2) (nonBlankLines text' ! (i + 1)) = Inl e \<and>
               (\<forall>j<i. \<exists>p. parseRow rnd (csvHeader text') (j + 2) (nonBlankLines text' ! (j + 1)) = Inr p)))"
    by (rule parseCsv_first_failure)
next
  show "''productName'' \<in> set header \<and> ''currentPrice'' \<in> set header \<longrightarrow>
       parseRow rnd header rowNum row =
         (let vs = splitOn CHR '','' row;
              name = trim (vs ! lastIndex header ''productName'');
              price = trim (vs ! lastIndex header ''currentPrice'')
          in if length vs \<noteq> length header then Inl (WrongColumnCount rowNum (length header) (length vs))
             else if name = [] then Inl (EmptyProductName rowNum)
             else if price = [] then Inl (EmptyCurrentPrice rowNum)
             else if \<not> isFinite (Number_str rnd price) then Inl (InvalidNumber rowNum price)
             else if jsLess0 (Number_str rnd price) then Inl (NegativePrice rowNum price)
             else Inr \<lparr> productName = name,
                        currentPrice = Number_str rnd price,
                        userProductUrl =
                          (case productData header vs ''userProductUrl'' of None \<Rightarrow> [] | Some u \<Rightarrow> u),
                        competitorUrls =
                          (case productData header vs ''competitorUrls'' of
                             None \<Rightarrow> []
                           | Some u \<Rightarrow> filter (\<lambda>x. x \<noteq> []) (map trim (splitOn CHR '';'' u))) \<rparr>)"
    using parseRow_outcome by blast
qed simp_all

lemmas csv_eval = nonBlankLines_def csvHeader_def LF_def CR_def trim_def isWhiteSpace_def
lemmas row_eval = parseRow_def productData_def trim_def isWhiteSpace_def upt_rec
  Number_str_def nonDecimalLiteral_def strDecimal_def unsignedDecimal_def exponentPart_def
  radixVal_def digitValue_def pow10_def radixDigits_def isDigit_def

lemma sample_lines:
  "nonBlankLines (''productName,currentPrice,competitorUrls'' @ [CR, LF] @ ''Shoe, 12.5 ,a; b;;c'' @
      [LF] @ [LF] @ ''Phone,abc,'' @ [LF]) =
     [''productName,currentPrice,competitorUrls'', ''Shoe, 12.5 ,a; b;;c'', ''Phone,abc,'']"
  by (simp add: csv_eval)

lemma sample_header:
  "csvHeader (''productName,currentPrice,competitorUrls'' @ [CR, LF] @ ''Shoe, 12.5 ,a; b;;c'' @
      [LF] @ [LF] @ ''Phone,abc,'' @ [LF]) =
     [''productName'', ''currentPrice'', ''competitorUrls'']"
  unfolding csvHeader_def sample_lines by (simp add: trim_def isWhiteSpace_def)

lemma sample_row_ok:
  "parseRow Num [''productName'', ''currentPrice'', ''competitorUrls''] 2 ''Shoe, 12.5 ,a; b;;c'' =
     Inr \<lparr> productName = ''Shoe'', currentPrice = Num (25 / 2), userProductUrl = [],
           competitorUrls = [''a'', ''b'', ''c''] \<rparr>"
  by (simp add: row_eval)

lemma sample_row_bad:
  "parseRow Num [''productName'', ''currentPrice'', ''competitorUrls''] 3 ''Phone,abc,'' =
     Inl (InvalidNumber 3 ''abc'')"
  by (simp add: row_eval)

lemma sample_row_negative:
  "parseRow Num [''productName'', ''currentPrice''] 2 ''Widget,-3'' = Inl (NegativePrice 2 ''-3'')"
  by (simp add: row_eval)

theorem parseCsv_all_or_nothing_witness:
  "parseCsv Num (''productName,currentPrice,competitorUrls'' @ [CR, LF] @ ''Shoe, 12.5 ,a; b;;c'' @
      [LF] @ [LF] @ ''Phone,abc,'' @ [LF]) = Inl (InvalidNumber 3 ''abc'')
   \<and> message (InvalidNumber 3 ''abc'') =
       ''CSV parsing failed on row 3: The value '' @ [DQ] @ ''abc'' @ [DQ] @ '' in 'currentPrice' is not a valid number.''
   \<and> parseRow Num [''productName'', ''currentPrice''] 2 ''Widget,-3'' = Inl (NegativePrice 2 ''-3'')
   \<and> (\<exists>ps. parseCsv Num (''productName,currentPrice,competitorUrls'' @ [LF] @ ''Shoe, 12.5 ,a; b;;c'') = Inr ps \<and>
            length ps = 1 \<and> productName (ps ! 0) = ''Shoe'' \<and> currentPrice (ps ! 0) = Num (25 / 2))"
proof -
  let ?bad = "''productName,currentPrice,competitorUrls'' @ [CR, LF] @ ''Shoe, 12.5 ,a; b;;c'' @
      [LF] @ [LF] @ ''Phone,abc,'' @ [LF]"
  let ?good = "''productName,currentPrice,competitorUrls'' @ [LF] @ ''Shoe, 12.5 ,a; b;;c''"
  let ?header = "[''productName'', ''currentPrice'', ''competitorUrls'']"
  note inst = parseCsv_all_or_nothing [of Num ?bad "[''productName'', ''currentPrice'']" 2 "''Widget,-3''"]
  have hdr: "2 \<le> length (nonBlankLines ?bad) \<and> ''productName'' \<in> set (csvHeader ?bad) \<and>
      ''currentPrice'' \<in> set (csvHeader ?bad)"
    unfolding sample_lines sample_header by simp
  have first_bad: "\<exists>i. i + 1 < length (nonBlankLines ?bad) \<and>
      parseRow Num (csvHeader ?bad) (i + 2) (nonBlankLines ?bad ! (i + 1)) = Inl (InvalidNumber 3 ''abc'') \<and>
      (\<forall>j<i. \<exists>p. parseRow Num (csvHeader ?bad) (j + 2) (nonBlankLines ?bad ! (j + 1)) = Inr p)"
  proof -
    let ?lines = "[''productName,currentPrice,competitorUrls'', ''Shoe, 12.5 ,a; b;;c'', ''Phone,abc,'']"
    have n3: "(1::nat) + 2 = 3" and n2: "(0::nat) + 2 = 2"
      by simp_all
    have l2: "?lines ! (1 + 1) = ''Phone,abc,''" and l1: "?lines ! (0 + 1) = ''Shoe, 12.5 ,a; b;;c''"
      by simp_all
    have bad: "parseRow Num ?header (1 + 2) (?lines ! (1 + 1)) = Inl (InvalidNumber 3 ''abc'')"
      unfolding n3 l2 by (rule sample_row_bad)
    have ok: "\<forall>j<1. \<exists>p. parseRow Num ?header (j + 2) (?lines ! (j + 1)) = Inr p"
    proof (intro allI impI)
      fix j :: nat
      assume "j < 1"
      then have j: "j = 0" by simp
      show "\<exists>p. parseRow Num ?header (j + 2) (?lines ! (j + 1)) = Inr p"
        unfolding j n2 l1 by (rule exI, rule sample_row_ok)
    qed
    have len: "(1::nat) + 1 < length ?lines"
      by simp
    from len bad ok show ?thesis
      unfolding sample_lines sample_header by (intro exI [of _ 1] conjI)
  qed
  have one: "parseCsv Num ?bad = Inl (InvalidNumber 3 ''abc'')"
    by (rule inst [THEN conjunct2, THEN conjunct1, THEN mp, OF hdr, THEN spec, THEN iffD2, OF first_bad])
  from parseCsv_all_or_nothing [of Num ?bad _ 3 _ _ _ "''abc''", THEN conjunct2, THEN conjunct2,
      THEN conjunct2, THEN conjunct2, THEN conjunct1]
  have two: "message (InvalidNumber 3 ''abc'') =
       ''CSV parsing failed on row 3: The value '' @ [DQ] @ ''abc'' @ [DQ] @ '' in 'currentPrice' is not a valid number.''"
    by (simp add: showNat.simps digitChar_def)
  have cols: "''productName'' \<in> set [''productName'', ''currentPrice''] \<and>
      ''currentPrice'' \<in> set [''productName'', ''currentPrice'']"
    by simp
  have three: "parseRow Num [''productName'', ''currentPrice''] 2 ''Widget,-3'' = Inl (NegativePrice 2 ''-3'')"
    unfolding inst [THEN conjunct2, THEN conjunct2, THEN conjunct1, THEN mp, OF cols]
    by (simp add: lastIndex_def upt_rec trim_def isWhiteSpace_def Number_str_def nonDecimalLiteral_def
        strDecimal_def unsignedDecimal_def exponentPart_def radixVal_def digitValue_def pow10_def
        radixDigits_def isDigit_def)
  have good_lines: "nonBlankLines ?good = [''productName,currentPrice,competitorUrls'', ''Shoe, 12.5 ,a; b;;c'']"
    by (simp add: csv_eval)
  have good_header: "csvHeader ?good = ?header"
    unfolding csvHeader_def good_lines by (simp add: trim_def isWhiteSpace_def)
  have good: "parseCsv Num ?good =
      Inr [\<lparr> productName = ''Shoe'', currentPrice = Num (25 / 2), userProductUrl = [],
             competitorUrls = [''a'', ''b'', ''c''] \<rparr>]"
    unfolding parseCsv_header_errors good_lines good_header
    by (simp add: sample_row_ok [unfolded numeral_2_eq_2])
  have "length [\<lparr> productName = ''Shoe'', currentPrice = Num (25 / 2), userProductUrl = [],
             competitorUrls = [''a'', ''b'', ''c''] \<rparr>] = length (nonBlankLines ?good) - 1"
    by (rule parseCsv_all_or_nothing [of Num ?good, THEN conjunct1, THEN spec, THEN mp, OF good,
          THEN conjunct1])
  with good good_lines have four: "\<exists>ps. parseCsv Num ?good = Inr ps \<and>
            length ps = 1 \<and> productName (ps ! 0) = ''Shoe'' \<and> currentPrice (ps ! 0) = Num (25 / 2)"
    by simp
  from one two three four show ?thesis by (intro conjI)
qed

text \<open>
  The row number of an error. When ingestion fails on a data row, the error names a row
  number \<open>r\<close>, at least 2, that is the position of the offending row among the non-blank
  lines of the input, counted from 1 with the header as 1: the row at that position is the
  one whose validation gives the error, and the data rows before it are valid. The message
  starts with that number. When none of the first \<open>r\<close> lines of the input is blank, \<open>r\<close>
  is also the line number of the offending row in the input.
\<close>

lemma error_row_among_nonblank:
  "parseCsv rnd text' = Inl e \<and> errorRow e = Some r \<longrightarrow>
     2 \<le> r \<and> r \<le> length (nonBlankLines text') \<and>
     parseRow rnd (csvHeader text') r (nonBlankLines text' ! (r - 1)) = Inl e \<and>
     (\<forall>j. 2 \<le> j \<and> j < r \<longrightarrow>
        (\<exists>p. parseRow rnd (csvHeader text') j (nonBlankLines text' ! (j - 1)) = Inr p)) \<and>
     (\<exists>rest. message e = ''CSV parsing failed on row '' @ showNat r @ '': '' @ rest) \<and>
     ((\<forall>k<r. trim (splitLines text' ! k) \<noteq> []) \<longrightarrow>
        r \<le> length (splitLines text') \<and> nonBlankLines text' ! (r - 1) = splitLines text' ! (r - 1))"
proof (intro impI)
  assume a: "parseCsv rnd text' = Inl e \<and> errorRow e = Some r"
  let ?lines = "nonBlankLines text'"
  let ?header = "csvHeader text'"
  from a have hdr: "2 \<le> length ?lines" "''productName'' \<in> set ?header" "''currentPrice'' \<in> set ?header"
    by (auto simp: parseCsv_header_errors split: if_splits)
  from a parseCsv_first_failure [of text' rnd] hdr
  obtain i where i: "i + 1 < length ?lines"
      "parseRow rnd ?header (i + 2) (?lines ! (i + 1)) = Inl e"
      "\<forall>j<i. \<exists>p. parseRow rnd ?header (j + 2) (?lines ! (j + 1)) = Inr p"
    by blast
  from i(2) have "errorRow e = Some (i + 2)"
    by (rule parseRow_errorRow)
  with a have r: "r = i + 2"
    by simp
  have before: "\<forall>j. 2 \<le> j \<and> j < r \<longrightarrow> (\<exists>p. parseRow rnd ?header j (?lines ! (j - 1)) = Inr p)"
  proof (intro allI impI)
    fix j
    assume j: "2 \<le> j \<and> j < r"
    then have "j - 2 < i" "j - 2 + 2 = j" "j - 2 + 1 = j - 1"
      using r by arith+
    with i(3) show "\<exists>p. parseRow rnd ?header j (?lines ! (j - 1)) = Inr p"
      by metis
  qed
  have physical: "r \<le> length (splitLines text') \<and> ?lines ! (r - 1) = splitLines text' ! (r - 1)"
    if nb: "\<forall>k<r. trim (splitLines text' ! k) \<noteq> []"
  proof -
    have "length ?lines \<le> length (splitLines text')"
      by (simp add: nonBlankLines_def)
    with i(1) r have le: "r \<le> length (splitLines text')"
      by simp
    have "filter (\<lambda>line. trim line \<noteq> []) (splitLines text') ! (r - 1) = splitLines text' ! (r - 1)"
      using le nb by (rule filter_nth_prefix) (simp add: r)
    with le show ?thesis
      by (simp add: nonBlankLines_def)
  qed
  from a have "errorRow e = Some r"
    by simp
  then have msg: "\<exists>rest. message e = ''CSV parsing failed on row '' @ showNat r @ '': '' @ rest"
    by (rule message_row)
  from i(1,2) r have "2 \<le> r" "r \<le> length ?lines" "parseRow rnd ?header r (?lines ! (r - 1)) = Inl e"
    by simp_all
  then show "2 \<le> r \<and> r \<le> length (nonBlankLines text') \<and>
     parseRow rnd (csvHeader text') r (nonBlankLines text' ! (r - 1)) = Inl e \<and>
     (\<forall>j. 2 \<le> j \<and> j < r \<longrightarrow>
        (\<exists>p. parseRow rnd (csvHeader text') j (nonBlankLines text' ! (j - 1)) = Inr p)) \<and>
     (\<exists>rest. message e = ''CSV parsing failed on row '' @ showNat r @ '': '' @ rest) \<and>
     ((\<forall>k<r. trim (splitLines text' ! k) \<noteq> []) \<longrightarrow>
        r \<le> length (splitLines text') \<and> nonBlankLines text' ! (r - 1) = splitLines text' ! (r - 1))"
  proof (intro conjI impI)
    assume nb: "\<forall>k<r. trim (splitLines text' ! k) \<noteq> []"
    from physical [OF nb] show "r \<le> length (splitLines text')"
      by (rule conjunct1)
    from physical [OF nb] show "nonBlankLines text' ! (r - 1) = splitLines text' ! (r - 1)"
      by (rule conjunct2)
  qed (assumption | rule before | rule msg)+
qed

lemma plain_lines:
  "splitLines (''productName,currentPrice'' @ [LF] @ ''Shoe,10'' @ [LF] @ ''Widget'') =
     [''productName,currentPrice'', ''Shoe,10'', ''Widget'']"
  by (simp add: LF_def CR_def)

lemma plain_parse:
  "parseCsv Num (''productName,currentPrice'' @ [LF] @ ''Shoe,10'' @ [LF] @ ''Widget'') =
     Inl (WrongColumnCount 3 2 1)"
  unfolding parseCsv_def nonBlankLines_def plain_lines
  by (simp add: trim_def isWhiteSpace_def row_eval)

text \<open>
  Claim C4. The row number of the error for a file with a blank line before the offending
  row. In the file with the lines \<^verbatim>\<open>productName,currentPrice\<close>, \<^verbatim>\<open>Shoe,10\<close>, an empty
  line and \<^verbatim>\<open>Widget\<close>, the row with too few columns is the fourth line of the file; the
  error and its message name row 3, which in the file is the empty line, because blank
  lines are dropped before the rows are numbered. In the same file without the empty line
  the offending row is the third line and the error names row 3 as well, with the same
  message.
\<close>

theorem error_row_after_blank_line:
  "splitLines (''productName,currentPrice'' @ [LF] @ ''Shoe,10'' @ [LF] @ [LF] @ ''Widget'') =
       [''productName,currentPrice'', ''Shoe,10'', [], ''Widget'']
   \<and> splitLines (''productName,currentPrice'' @ [LF] @ ''Shoe,10'' @ [LF] @ [LF] @ ''Widget'') ! (3 - 1) = []
   \<and> splitLines (''productName,currentPrice'' @ [LF] @ ''Shoe,10'' @ [LF] @ [LF] @ ''Widget'') ! (4 - 1) = ''Widget''
   \<and> parseRow Num [''productName'', ''currentPrice''] 4 ''Widget'' = Inl (WrongColumnCount 4 2 1)
   \<and> parseCsv Num (''productName,currentPrice'' @ [LF] @ ''Shoe,10'' @ [LF] @ [LF] @ ''Widget'') =
       Inl (WrongColumnCount 3 2 1)
   \<and> errorRow (WrongColumnCount 3 2 1) = Some 3
   \<and> message (WrongColumnCount 3 2 1) =
       ''CSV parsing failed on row 3: Incorrect number of columns. Expected 2, but found 1. Please check for extra commas.''
   \<and> splitLines (''productName,currentPrice'' @ [LF] @ ''Shoe,10'' @ [LF] @ ''Widget'') =
       [''productName,currentPrice'', ''Shoe,10'', ''Widget'']
   \<and> parseCsv Num (''productName,currentPrice'' @ [LF] @ ''Shoe,10'' @ [LF] @ ''Widget'') =
       Inl (WrongColumnCount 3 2 1)"
proof -
  let ?t = "''productName,currentPrice'' @ [LF] @ ''Shoe,10'' @ [LF] @ [LF] @ ''Widget''"
  have lines: "splitLines ?t = [''productName,currentPrice'', ''Shoe,10'', [], ''Widget'']"
    by (simp add: LF_def CR_def)
  have third: "splitLines ?t ! (3 - 1) = []"
    unfolding lines by simp
  have fourth: "splitLines ?t ! (4 - 1) = ''Widget''"
    unfolding lines by simp
  have physical: "parseRow Num [''productName'', ''currentPrice''] 4 ''Widget'' = Inl (WrongColumnCount 4 2 1)"
    by (simp add: row_eval)
  have parse: "parseCsv Num ?t = Inl (WrongColumnCount 3 2 1)"
    unfolding parseCsv_def nonBlankLines_def lines
    by (simp add: trim_def isWhiteSpace_def row_eval)
  have row: "errorRow (WrongColumnCount 3 2 1) = Some 3"
    by simp
  have msg: "message (WrongColumnCount 3 2 1) =
       ''CSV parsing failed on row 3: Incorrect number of columns. Expected 2, but found 1. Please check for extra commas.''"
    by (simp add: showNat.simps digitChar_def)
  from lines third fourth physical parse row msg plain_lines plain_parse show ?thesis
    by (intro conjI)
qed

end
